theory Spec2Isabelle
  imports Main
begin

section \<open>JavaScript values and strings\<close>

text \<open>
  Strings are \<^typ>\<open>string\<close> (lists of 8-bit characters); the model covers ASCII text.
  \<open>String.prototype.toLowerCase\<close> maps \<open>A\<close>..\<open>Z\<close> to \<open>a\<close>..\<open>z\<close> and leaves every
  other ASCII character alone.
\<close>

definition toLowerCase_char :: "char \<Rightarrow> char" where
  "toLowerCase_char c =
     (let n = (of_char c :: nat) in if 65 \<le> n \<and> n \<le> 90 then char_of (n + 32) else c)"

definition toLowerCase :: "string \<Rightarrow> string" where
  "toLowerCase s = map toLowerCase_char s"

text \<open>
  The values that travel as \<open>data\<close> and \<open>content\<close> of a file: JavaScript \<open>null\<close>, a URL
  string, a browser \<open>File\<close> object (an opaque handle), or a byte buffer (kept as the
  text it holds).
\<close>

datatype payload = Null | UrlString string | FileObject nat | ArrayBuffer string

section \<open>File names (io/fileutils.js)\<close>

datatype FileSource = Url | File | Decompressed

text \<open>
  Modelled from the spec: \<open>GetFileName\<close> and \<open>GetFileExtension\<close> live in
  \<open>io/fileutils.js\<close>, which is not among the sources. The spec gives the base name as the
  path with its path component stripped, and the extension as derived from the name; the
  code compares extensions with the lower-case literals \<open>'zip'\<close> and \<open>'obj'\<close>. So the base
  name is what follows the last \<open>/\<close>, and the extension is what follows the last \<open>.\<close> of
  the base name, in lower case (empty when the base name has no dot).
\<close>

definition GetFileName :: "string \<Rightarrow> string" where
  "GetFileName filePath = rev (takeWhile (\<lambda>c. c \<noteq> CHR ''/'') (rev filePath))"

definition GetFileExtension :: "string \<Rightarrow> string" where
  "GetFileExtension filePath =
     (let fileName = GetFileName filePath in
      if CHR ''.'' \<notin> set fileName then ''''
      else toLowerCase (rev (takeWhile (\<lambda>c. c \<noteq> CHR ''.'') (rev fileName))))"

section \<open>The file set (importerfiles.js)\<close>

record InputFile =
  name :: string
  source :: FileSource
  data :: payload

text \<open>
  \<open>class ImporterFile\<close>: the constructor normalises the name, derives the extension and
  sets \<open>content\<close> from \<open>data\<close>.
\<close>

record ImporterFile = InputFile +
  extension :: string
  content :: payload

definition new_ImporterFile :: "string \<Rightarrow> FileSource \<Rightarrow> payload \<Rightarrow> ImporterFile" where
  "new_ImporterFile nm src d =
     \<lparr> name = GetFileName nm, source = src, data = d,
       extension = GetFileExtension nm, content = d \<rparr>"

definition SetContent :: "payload \<Rightarrow> ImporterFile \<Rightarrow> ImporterFile" where
  "SetContent c file = file\<lparr>content := c\<rparr>"

text \<open>\<open>class ImporterFileList\<close>: the object holds one array, \<open>files\<close>.\<close>

type_synonym ImporterFileList = "ImporterFile list"

definition FillFromInputFiles :: "InputFile list \<Rightarrow> ImporterFileList" where
  "FillFromInputFiles inputFiles =
     foldl (\<lambda>files inputFile.
              files @ [new_ImporterFile (name inputFile) (source inputFile) (data inputFile)])
           [] inputFiles"

definition FindFileByPath :: "ImporterFileList \<Rightarrow> string \<Rightarrow> ImporterFile option" where
  "FindFileByPath files filePath =
     (let fileName = toLowerCase (GetFileName filePath) in
      find (\<lambda>file. toLowerCase (name file) = fileName) files)"

definition ContainsFileByPath :: "ImporterFileList \<Rightarrow> string \<Rightarrow> bool" where
  "ContainsFileByPath files filePath = (FindFileByPath files filePath \<noteq> None)"

definition ExtendFromFileList :: "ImporterFileList \<Rightarrow> ImporterFileList \<Rightarrow> ImporterFileList" where
  "ExtendFromFileList this fileList =
     foldl (\<lambda>files file.
              if \<not> ContainsFileByPath files (name file) then files @ [file] else files)
           this fileList"

definition IsOnlyUrlSource :: "ImporterFileList \<Rightarrow> bool" where
  "IsOnlyUrlSource files =
     (if length files = 0 then False
      else list_all (\<lambda>file. \<not> (source file \<noteq> Url \<and> source file \<noteq> Decompressed)) files)"

definition AddFile :: "ImporterFile \<Rightarrow> ImporterFileList \<Rightarrow> ImporterFileList" where
  "AddFile file files = files @ [file]"

text \<open>
  Loading. \<open>RequestUrl\<close> and \<open>ReadFile\<close> are the external I/O collaborators
  (\<open>io/fileutils.js\<close>); each returns a promise, which here is its outcome: \<open>Some\<close> of the
  loaded content when it resolves, \<open>None\<close> when it rejects. What \<open>GetFileContent\<close> asks of
  them is recorded as a list of events, next to the file as the call leaves it.
\<close>

record Loaders =
  RequestUrl :: "payload \<Rightarrow> payload option"
  ReadFile :: "payload \<Rightarrow> payload option"

datatype LoadEvent =
    FileListProgress nat nat
  | UrlRequested payload
  | FileRead payload

definition GetFileContent :: "Loaders \<Rightarrow> ImporterFile \<Rightarrow> ImporterFile \<times> LoadEvent list" where
  "GetFileContent io file =
     (if content file \<noteq> Null then (file, [])
      else if source file = Url then
        (case RequestUrl io (data file) of
           Some c \<Rightarrow> (SetContent c file, [UrlRequested (data file)])
         | None \<Rightarrow> (file, [UrlRequested (data file)]))
      else if source file = File then
        (case ReadFile io (data file) of
           Some c \<Rightarrow> (SetContent c file, [FileRead (data file)])
         | None \<Rightarrow> (file, [FileRead (data file)]))
      else (file, []))"

text \<open>
  Modelled from the spec: \<open>RunTasks\<close> (\<open>core/taskrunner.js\<close>, not among the sources) runs
  the indexed subtasks one at a time, in index order. \<open>GetContent\<close> reports the file-list
  progress and then loads the file, for each index in turn.
\<close>

fun GetContent_from :: "Loaders \<Rightarrow> nat \<Rightarrow> nat \<Rightarrow> ImporterFileList \<Rightarrow> ImporterFileList \<times> LoadEvent list" where
  "GetContent_from io index count [] = ([], [])"
| "GetContent_from io index count (file # files) =
     (let (file', ev) = GetFileContent io file;
          (files', evs) = GetContent_from io (Suc index) count files
      in (file' # files', FileListProgress index count # ev @ evs))"

definition GetContent :: "Loaders \<Rightarrow> ImporterFileList \<Rightarrow> ImporterFileList \<times> LoadEvent list" where
  "GetContent io files = GetContent_from io 0 (length files) files"

section \<open>The import orchestrator (importer.js)\<close>

text \<open>
  \<open>class ImporterFileAccessor\<close>: a cache (a JavaScript \<open>Map\<close>, here an association list
  in insertion order) in front of a callback. The callback reads and writes the state
  of whoever supplied it, so it takes and returns that state (\<open>'w\<close>).
\<close>

type_synonym 'w BufferCallback = "string \<Rightarrow> 'w \<Rightarrow> payload \<times> 'w"

record ImporterFileAccessor =
  fileBuffers :: "(string \<times> payload) list"

definition new_ImporterFileAccessor :: ImporterFileAccessor where
  "new_ImporterFileAccessor = \<lparr> fileBuffers = [] \<rparr>"

fun Map_set :: "'k \<Rightarrow> 'v \<Rightarrow> ('k \<times> 'v) list \<Rightarrow> ('k \<times> 'v) list" where
  "Map_set k v [] = [(k, v)]"
| "Map_set k v ((k', v') # m) = (if k' = k then (k, v) # m else (k', v') # Map_set k v m)"

definition GetFileBuffer ::
    "'w BufferCallback \<Rightarrow> string \<Rightarrow> ImporterFileAccessor \<times> 'w \<Rightarrow> payload \<times> ImporterFileAccessor \<times> 'w" where
  "GetFileBuffer getBufferCallback filePath st =
     (let (this, w) = st;
          fileName = GetFileName filePath in
      case map_of (fileBuffers this) fileName of
        Some cached \<Rightarrow> (cached, this, w)
      | None \<Rightarrow>
          (let (buffer, w') = getBufferCallback fileName w in
           (buffer, this\<lparr>fileBuffers := Map_set fileName buffer (fileBuffers this)\<rparr>, w')))"

text \<open>
  \<open>class Importer\<close>. Of the registered format importers the orchestrator uses only
  \<open>CanImportExtension\<close>, so the registration table is the list of these predicates, in
  registration order (the table's sixteen classes are not among the sources, save
  \<open>ImporterObj\<close>). The field \<open>model\<close> is written only when an import succeeds and is left
  out.
\<close>

record Importer =
  importers :: "(string \<Rightarrow> bool) list"
  fileList :: ImporterFileList
  usedFiles :: "string list"
  missingFiles :: "string list"

definition FindImporter :: "ImporterFile \<Rightarrow> (string \<Rightarrow> bool) list \<Rightarrow> nat option" where
  "FindImporter file imps =
     (case filter (\<lambda>importerIndex. (imps ! importerIndex) (extension file)) [0..<length imps] of
        [] \<Rightarrow> None
      | importerIndex # _ \<Rightarrow> Some importerIndex)"

definition GetImportableFiles :: "Importer \<Rightarrow> ImporterFileList \<Rightarrow> (ImporterFile \<times> nat) list" where
  "GetImportableFiles this files =
     concat (map (\<lambda>file. case FindImporter file (importers this) of
                            None \<Rightarrow> []
                          | Some importer \<Rightarrow> [(file, importer)]) files)"

definition HasImportableFile :: "Importer \<Rightarrow> ImporterFileList \<Rightarrow> bool" where
  "HasImportableFile this files = (length (GetImportableFiles this files) > 0)"

text \<open>
  \<open>LoadFiles\<close>, lines 131 to 154: the reconciliation of the candidate list with the
  current one; then \<open>GetContent\<close> on the result.
\<close>

definition foundMissingFile :: "Importer \<Rightarrow> ImporterFileList \<Rightarrow> bool" where
  "foundMissingFile this newFileList =
     foldl (\<lambda>found missingFile. if ContainsFileByPath newFileList missingFile then True else found)
           False (missingFiles this)"

definition LoadFiles_reconcile :: "InputFile list \<Rightarrow> Importer \<Rightarrow> Importer" where
  "LoadFiles_reconcile inputFiles this =
     (let newFileList = FillFromInputFiles inputFiles in
      if HasImportableFile this newFileList then this\<lparr>fileList := newFileList\<rparr>
      else if \<not> foundMissingFile this newFileList then this\<lparr>fileList := newFileList\<rparr>
      else this\<lparr>fileList := ExtendFromFileList (fileList this) newFileList\<rparr>)"

definition LoadFiles :: "Loaders \<Rightarrow> InputFile list \<Rightarrow> Importer \<Rightarrow> Importer \<times> LoadEvent list" where
  "LoadFiles io inputFiles this =
     (let this' = LoadFiles_reconcile inputFiles this;
          (files, events) = GetContent io (fileList this')
      in (this'\<lparr>fileList := files\<rparr>, events))"

text \<open>
  \<open>DecompressArchives\<close>. \<open>unzipSync\<close> (the fflate library) is a parameter: it gives the
  entries of an archive, name and bytes, in the order the \<open>for ... in\<close> loop visits them,
  or \<open>None\<close> when it throws.
\<close>

fun DecompressEntries :: "(string \<times> string) list \<Rightarrow> ImporterFileList \<Rightarrow> ImporterFileList" where
  "DecompressEntries [] files = files"
| "DecompressEntries ((fileName, bytes) # decompressed) files =
     DecompressEntries decompressed
       (AddFile (SetContent (ArrayBuffer bytes) (new_ImporterFile fileName Decompressed Null)) files)"

fun DecompressLoop ::
    "(payload \<Rightarrow> (string \<times> string) list option) \<Rightarrow> ImporterFile list \<Rightarrow> ImporterFileList \<Rightarrow> ImporterFileList option" where
  "DecompressLoop unzipSync [] files = Some files"
| "DecompressLoop unzipSync (archiveFile # archives) files =
     (case unzipSync (content archiveFile) of
        None \<Rightarrow> None
      | Some decompressed \<Rightarrow> DecompressLoop unzipSync archives (DecompressEntries decompressed files))"

definition DecompressArchives ::
    "(payload \<Rightarrow> (string \<times> string) list option) \<Rightarrow> ImporterFileList \<Rightarrow> ImporterFileList option" where
  "DecompressArchives unzipSync files =
     (let archives = filter (\<lambda>file. extension file = ''zip'') files in
      if length archives = 0 then Some files
      else DecompressLoop unzipSync archives files)"

text \<open>
  \<open>ImportLoadedMainFile\<close>, lines 203 to 214: the callback handed to the accessor. It
  looks the name up in the file list and records it as used or as missing.
\<close>

definition getBufferCallback :: "Importer BufferCallback" where
  "getBufferCallback fileName this =
     (case FindFileByPath (fileList this) fileName of
        None \<Rightarrow> (Null, this\<lparr>missingFiles := missingFiles this @ [fileName]\<rparr>)
      | Some file \<Rightarrow>
          if content file = Null
          then (Null, this\<lparr>missingFiles := missingFiles this @ [fileName]\<rparr>)
          else (content file, this\<lparr>usedFiles := usedFiles this @ [fileName]\<rparr>))"

text \<open>
  \<open>ImportLoadedMainFile\<close>, lines 197 to 203: the bookkeeping is reset, the main file is
  recorded as used and a fresh accessor is made.
\<close>

definition ImportLoadedMainFile_begin :: "ImporterFile \<Rightarrow> Importer \<Rightarrow> ImporterFileAccessor \<times> Importer" where
  "ImportLoadedMainFile_begin mainFile this =
     (new_ImporterFileAccessor, this\<lparr>usedFiles := [] @ [name mainFile], missingFiles := []\<rparr>)"

text \<open>
  What the format importer does with the accessor is a sequence of \<open>getFileBuffer\<close>
  requests; \<open>GetFileBuffers\<close> runs such a sequence and collects the answers.
\<close>

fun GetFileBuffers ::
    "'w BufferCallback \<Rightarrow> string list \<Rightarrow> ImporterFileAccessor \<times> 'w \<Rightarrow> payload list \<times> ImporterFileAccessor \<times> 'w" where
  "GetFileBuffers cb [] st = ([], st)"
| "GetFileBuffers cb (filePath # filePaths) st =
     (let (buffer, st') = GetFileBuffer cb filePath st;
          (buffers, st'') = GetFileBuffers cb filePaths st'
      in (buffer # buffers, st''))"

section \<open>The OBJ importer (importerobj.js)\<close>

subsection \<open>Numbers and text\<close>

text \<open>
  \<open>parseInt (s, 10)\<close> gives an integer or \<open>NaN\<close>: it skips leading white space, reads an
  optional sign and then the longest run of decimal digits; with no digit the result is
  \<open>NaN\<close>. Integers are unbounded here (the source's doubles are exact up to \<open>2^53\<close>).
\<close>

datatype jsnum = NaN | Num int

definition isWhiteSpace :: "char \<Rightarrow> bool" where
  "isWhiteSpace c = (let n = (of_char c :: nat) in n = 32 \<or> (9 \<le> n \<and> n \<le> 13))"

definition isDigit :: "char \<Rightarrow> bool" where
  "isDigit c = (let n = (of_char c :: nat) in 48 \<le> n \<and> n \<le> 57)"

definition digitsToNat :: "string \<Rightarrow> nat" where
  "digitsToNat ds = foldl (\<lambda>acc c. 10 * acc + (of_char c - 48)) 0 ds"

definition parseInt :: "string \<Rightarrow> jsnum" where
  "parseInt str =
     (let s = dropWhile isWhiteSpace str;
          negative = (s \<noteq> [] \<and> hd s = CHR ''-'');
          signed = (s \<noteq> [] \<and> (hd s = CHR ''-'' \<or> hd s = CHR ''+''));
          digits = takeWhile isDigit (if signed then tl s else s)
      in if digits = [] then NaN
         else if negative then Num (- int (digitsToNat digits))
         else Num (int (digitsToNat digits)))"

text \<open>\<open>String.prototype.split\<close> on a single character, and \<open>trim\<close>.\<close>

fun String_split :: "char \<Rightarrow> string \<Rightarrow> string list" where
  "String_split sep [] = [[]]"
| "String_split sep (c # cs) =
     (if c = sep then [] # String_split sep cs
      else (case String_split sep cs of
              [] \<Rightarrow> [[c]]
            | piece # pieces \<Rightarrow> (c # piece) # pieces))"

definition trim :: "string \<Rightarrow> string" where
  "trim s = rev (dropWhile isWhiteSpace (rev (dropWhile isWhiteSpace s)))"

definition startsWith :: "string \<Rightarrow> string \<Rightarrow> bool" where
  "startsWith s pre = (take (length pre) s = pre)"

text \<open>
  Floating-point numbers are not interpreted: a number read by \<open>parseFloat\<close> is kept as
  the text it was read from, and the two arithmetic expressions of the source
  (\<open>x / 1000.0\<close> and \<open>1.0 - x\<close>) are kept as expressions.
\<close>

datatype jsfloat = parseFloat string | DividedBy1000 jsfloat | OneMinus jsfloat

datatype Coord2D = Coord2D jsfloat jsfloat

datatype Coord3D = Coord3D jsfloat jsfloat jsfloat

datatype RGBColor = RGBColorFromFloatComponents jsfloat jsfloat jsfloat

definition CreateColor :: "string \<Rightarrow> string \<Rightarrow> string \<Rightarrow> RGBColor" where
  "CreateColor r g b = RGBColorFromFloatComponents (parseFloat r) (parseFloat g) (parseFloat b)"

text \<open>
  Modelled from the spec: \<open>ReadLines\<close>, \<open>ParametersFromLine\<close> and \<open>NameFromLine\<close> live in
  \<open>importerutils.js\<close>, and \<open>ArrayBufferToUtf8String\<close> in \<open>io/bufferutils.js\<close>, which are
  not among the sources. By the spec the format is line oriented, blank lines are
  skipped, anything from the first \<open>#\<close> onward is stripped and the remaining text is
  tokenized on white space; a name is the text that follows the keyword, up to a
  comment. A buffer decodes to the text it holds; a payload that is no buffer has no
  decoding.
\<close>

definition ReadLines :: "string \<Rightarrow> string list" where
  "ReadLines str = filter (\<lambda>line. line \<noteq> []) (map trim (String_split (CHR 0x0A) str))"

fun tokenize :: "string \<Rightarrow> string \<Rightarrow> string list" where
  "tokenize word [] = (if word = [] then [] else [word])"
| "tokenize word (c # cs) =
     (if isWhiteSpace c then (if word = [] then tokenize [] cs else word # tokenize [] cs)
      else tokenize (word @ [c]) cs)"

definition ParametersFromLine :: "string \<Rightarrow> char \<Rightarrow> string list" where
  "ParametersFromLine line commentChar = tokenize [] (takeWhile (\<lambda>c. c \<noteq> commentChar) line)"

definition NameFromLine :: "string \<Rightarrow> nat \<Rightarrow> char \<Rightarrow> string" where
  "NameFromLine line startIndex commentChar =
     trim (takeWhile (\<lambda>c. c \<noteq> commentChar) (drop startIndex line))"

definition ArrayBufferToUtf8String :: "payload \<Rightarrow> string option" where
  "ArrayBufferToUtf8String buffer = (case buffer of ArrayBuffer text \<Rightarrow> Some text | _ \<Rightarrow> None)"

subsection \<open>The model: meshes and materials\<close>

text \<open>
  Modelled from the spec: \<open>Triangle\<close>, \<open>Line\<close>, \<open>Mesh\<close>, \<open>TextureMap\<close> and \<open>PhongMaterial\<close>
  (\<open>model/*.js\<close>) are not among the sources. By the spec a triangle has three vertex
  indices, optional color, normal and uv triples and an optional material index; a line
  has its vertex indices and an optional material index; the buffers of a mesh are
  append-only and indexed, so that adding a value returns the index it got. A field
  that the constructor sets and the importer has not yet written is \<open>None\<close>.
\<close>

record Triangle =
  tri_v0 :: nat
  tri_v1 :: nat
  tri_v2 :: nat
  tri_colors :: "(nat \<times> nat \<times> nat) option"
  tri_normals :: "(nat \<times> nat \<times> nat) option"
  tri_uvs :: "(nat \<times> nat \<times> nat) option"
  tri_mat :: "nat option"

definition new_Triangle :: "nat \<Rightarrow> nat \<Rightarrow> nat \<Rightarrow> Triangle" where
  "new_Triangle v0 v1 v2 =
     \<lparr> tri_v0 = v0, tri_v1 = v1, tri_v2 = v2, tri_colors = None, tri_normals = None,
       tri_uvs = None, tri_mat = None \<rparr>"

record Line =
  line_vertices :: "nat list"
  line_mat :: "nat option"

definition new_Line :: "nat list \<Rightarrow> Line" where
  "new_Line vertices = \<lparr> line_vertices = vertices, line_mat = None \<rparr>"

record Mesh =
  mesh_name :: string
  mesh_vertices :: "Coord3D list"
  mesh_vertexColors :: "RGBColor list"
  mesh_normals :: "Coord3D list"
  mesh_uvs :: "Coord2D list"
  mesh_lines :: "Line list"
  mesh_triangles :: "Triangle list"

definition new_Mesh :: Mesh where
  "new_Mesh = \<lparr> mesh_name = [], mesh_vertices = [], mesh_vertexColors = [], mesh_normals = [],
                mesh_uvs = [], mesh_lines = [], mesh_triangles = [] \<rparr>"

definition Mesh_AddVertex :: "Coord3D \<Rightarrow> Mesh \<Rightarrow> nat \<times> Mesh" where
  "Mesh_AddVertex v m = (length (mesh_vertices m), m\<lparr>mesh_vertices := mesh_vertices m @ [v]\<rparr>)"

definition Mesh_AddVertexColor :: "RGBColor \<Rightarrow> Mesh \<Rightarrow> nat \<times> Mesh" where
  "Mesh_AddVertexColor c m =
     (length (mesh_vertexColors m), m\<lparr>mesh_vertexColors := mesh_vertexColors m @ [c]\<rparr>)"

definition Mesh_AddNormal :: "Coord3D \<Rightarrow> Mesh \<Rightarrow> nat \<times> Mesh" where
  "Mesh_AddNormal n m = (length (mesh_normals m), m\<lparr>mesh_normals := mesh_normals m @ [n]\<rparr>)"

definition Mesh_AddTextureUV :: "Coord2D \<Rightarrow> Mesh \<Rightarrow> nat \<times> Mesh" where
  "Mesh_AddTextureUV uv m = (length (mesh_uvs m), m\<lparr>mesh_uvs := mesh_uvs m @ [uv]\<rparr>)"

definition Mesh_AddLine :: "Line \<Rightarrow> Mesh \<Rightarrow> Mesh" where
  "Mesh_AddLine line m = m\<lparr>mesh_lines := mesh_lines m @ [line]\<rparr>"

definition Mesh_AddTriangle :: "Triangle \<Rightarrow> Mesh \<Rightarrow> Mesh" where
  "Mesh_AddTriangle triangle m = m\<lparr>mesh_triangles := mesh_triangles m @ [triangle]\<rparr>"

record TextureMap =
  tex_name :: string
  tex_buffer :: payload
  offset_x :: "jsfloat option"
  offset_y :: "jsfloat option"
  scale_x :: "jsfloat option"
  scale_y :: "jsfloat option"

definition new_TextureMap :: TextureMap where
  "new_TextureMap = \<lparr> tex_name = [], tex_buffer = Null, offset_x = None, offset_y = None,
                      scale_x = None, scale_y = None \<rparr>"

text \<open>
  Modelled from the spec: \<open>UpdateMaterialTransparency\<close> (\<open>importerutils.js\<close>, not among
  the sources) recomputes the transparency flag of a material from its opacity. The flag
  is kept as the opacity it was last recomputed from.
\<close>

datatype Transparency = AsConstructed | RecomputedFrom "jsfloat option"

record PhongMaterial =
  mat_name :: string
  color :: "RGBColor option"
  ambient :: "RGBColor option"
  specular :: "RGBColor option"
  shininess :: "jsfloat option"
  opacity :: "jsfloat option"
  transparent :: Transparency
  diffuseMap :: "TextureMap option"
  specularMap :: "TextureMap option"
  bumpMap :: "TextureMap option"

definition new_PhongMaterial :: PhongMaterial where
  "new_PhongMaterial =
     \<lparr> mat_name = [], color = None, ambient = None, specular = None, shininess = None,
       opacity = None, transparent = AsConstructed, diffuseMap = None, specularMap = None,
       bumpMap = None \<rparr>"

definition UpdateMaterialTransparency :: "PhongMaterial \<Rightarrow> PhongMaterial" where
  "UpdateMaterialTransparency material = material\<lparr>transparent := RecomputedFrom (opacity material)\<rparr>"

subsection \<open>\<open>class ObjMeshConverter\<close>\<close>

text \<open>
  The four JavaScript \<open>Map\<close>s from global to mesh-local index are association lists in
  insertion order; \<open>has\<close> and \<open>get\<close> are \<^const>\<open>map_of\<close>, \<open>set\<close> is \<^const>\<open>Map_set\<close>.
\<close>

record ObjMeshConverter =
  mesh :: Mesh
  globalToMeshVertices :: "(nat \<times> nat) list"
  globalToMeshVertexColors :: "(nat \<times> nat) list"
  globalToMeshNormals :: "(nat \<times> nat) list"
  globalToMeshUvs :: "(nat \<times> nat) list"

definition new_ObjMeshConverter :: "Mesh \<Rightarrow> ObjMeshConverter" where
  "new_ObjMeshConverter m =
     \<lparr> mesh = m, globalToMeshVertices = [], globalToMeshVertexColors = [],
       globalToMeshNormals = [], globalToMeshUvs = [] \<rparr>"

text \<open>
  \<open>GetMeshIndex\<close> returns the mesh-local index (\<open>None\<close> for JavaScript \<open>null\<close>), the map
  and the mesh as the call leaves them. \<open>valueAdderFunc\<close> appends to the mesh and returns
  the new index.
\<close>

definition GetMeshIndex ::
    "jsnum \<Rightarrow> 'v list \<Rightarrow> (nat \<times> nat) list \<Rightarrow> ('v \<Rightarrow> Mesh \<Rightarrow> nat \<times> Mesh) \<Rightarrow> Mesh
       \<Rightarrow> nat option \<times> (nat \<times> nat) list \<times> Mesh" where
  "GetMeshIndex globalIndex globalValueArray globalToMeshIndices valueAdderFunc m =
     (case globalIndex of
        NaN \<Rightarrow> (None, globalToMeshIndices, m)
      | Num gi \<Rightarrow>
          if gi < 0 \<or> gi \<ge> int (length globalValueArray) then (None, globalToMeshIndices, m)
          else (case map_of globalToMeshIndices (nat gi) of
                  Some meshIndex \<Rightarrow> (Some meshIndex, globalToMeshIndices, m)
                | None \<Rightarrow>
                    (let globalValue = globalValueArray ! nat gi;
                         (meshIndex, m') = valueAdderFunc globalValue m
                     in (Some meshIndex, Map_set (nat gi) meshIndex globalToMeshIndices, m'))))"

definition AddVertex :: "jsnum \<Rightarrow> Coord3D list \<Rightarrow> ObjMeshConverter \<Rightarrow> nat option \<times> ObjMeshConverter" where
  "AddVertex globalIndex globalVertices this =
     (let (r, indices, m) =
            GetMeshIndex globalIndex globalVertices (globalToMeshVertices this)
              (\<lambda>val. Mesh_AddVertex (case val of Coord3D x y z \<Rightarrow> Coord3D x y z)) (mesh this)
      in (r, this\<lparr>mesh := m, globalToMeshVertices := indices\<rparr>))"

definition AddVertexColor :: "jsnum \<Rightarrow> RGBColor list \<Rightarrow> ObjMeshConverter \<Rightarrow> nat option \<times> ObjMeshConverter" where
  "AddVertexColor globalIndex globalVertexColors this =
     (let (r, indices, m) =
            GetMeshIndex globalIndex globalVertexColors (globalToMeshVertexColors this)
              (\<lambda>val. Mesh_AddVertexColor
                        (case val of RGBColorFromFloatComponents r g b \<Rightarrow> RGBColorFromFloatComponents r g b))
              (mesh this)
      in (r, this\<lparr>mesh := m, globalToMeshVertexColors := indices\<rparr>))"

definition AddNormal :: "jsnum \<Rightarrow> Coord3D list \<Rightarrow> ObjMeshConverter \<Rightarrow> nat option \<times> ObjMeshConverter" where
  "AddNormal globalIndex globalNormals this =
     (let (r, indices, m) =
            GetMeshIndex globalIndex globalNormals (globalToMeshNormals this)
              (\<lambda>val. Mesh_AddNormal (case val of Coord3D x y z \<Rightarrow> Coord3D x y z)) (mesh this)
      in (r, this\<lparr>mesh := m, globalToMeshNormals := indices\<rparr>))"

definition AddUV :: "jsnum \<Rightarrow> Coord2D list \<Rightarrow> ObjMeshConverter \<Rightarrow> nat option \<times> ObjMeshConverter" where
  "AddUV globalIndex globalUvs this =
     (let (r, indices, m) =
            GetMeshIndex globalIndex globalUvs (globalToMeshUvs this)
              (\<lambda>val. Mesh_AddTextureUV (case val of Coord2D x y \<Rightarrow> Coord2D x y)) (mesh this)
      in (r, this\<lparr>mesh := m, globalToMeshUvs := indices\<rparr>))"

definition AddLine :: "Line \<Rightarrow> ObjMeshConverter \<Rightarrow> ObjMeshConverter" where
  "AddLine line this = this\<lparr>mesh := Mesh_AddLine line (mesh this)\<rparr>"

definition AddTriangle :: "Triangle \<Rightarrow> ObjMeshConverter \<Rightarrow> ObjMeshConverter" where
  "AddTriangle triangle this = this\<lparr>mesh := Mesh_AddTriangle triangle (mesh this)\<rparr>"

subsection \<open>\<open>class ImporterObj\<close>: the parser state\<close>

text \<open>
  The fields of \<open>ImporterObj\<close> with the part of \<open>ImporterBase\<close> it uses. Objects that the
  source shares by reference are kept in one place and named by their index: the mesh
  converters in \<open>converters\<close> (in the order their meshes were added to the model's root
  node), the materials in \<open>materials\<close> (the model's material list, in which
  \<open>AddMaterial\<close> returns the index of the material it appends). \<open>callbacks\<close> is the state
  behind \<open>this.callbacks.getFileBuffer\<close>: the orchestrator's accessor and the orchestrator.
\<close>

record ObjState =
  globalVertices :: "Coord3D list"
  globalVertexColors :: "RGBColor list"
  globalNormals :: "Coord3D list"
  globalUvs :: "Coord2D list"
  currentMeshConverter :: "nat option"
  currentMaterial :: "nat option"
  currentMaterialIndex :: "nat option"
  meshNameToConverter :: "(string \<times> nat) list"
  materialNameToIndex :: "(string \<times> nat) list"
  converters :: "ObjMeshConverter list"
  materials :: "PhongMaterial list"
  error :: bool
  message :: "string option"
  callbacks :: "ImporterFileAccessor \<times> Importer"

text \<open>
  Modelled from the spec: \<open>SetError\<close> and \<open>WasError\<close> belong to \<open>ImporterBase\<close>
  (\<open>importerbase.js\<close>, not among the sources); the first flags the parse as failed and
  keeps the message, the second reads the flag.
\<close>

definition SetError :: "string \<Rightarrow> ObjState \<Rightarrow> ObjState" where
  "SetError msg this = this\<lparr>error := True, message := Some msg\<rparr>"

definition WasError :: "ObjState \<Rightarrow> bool" where
  "WasError this = error this"

definition ResetContent :: "ImporterFileAccessor \<times> Importer \<Rightarrow> ObjState" where
  "ResetContent cb =
     \<lparr> globalVertices = [], globalVertexColors = [], globalNormals = [], globalUvs = [],
       currentMeshConverter = None, currentMaterial = None, currentMaterialIndex = None,
       meshNameToConverter = [], materialNameToIndex = [],
       converters = [], materials = [], error = False, message = None, callbacks = cb \<rparr>"

definition CanImportExtension :: "string \<Rightarrow> bool" where
  "CanImportExtension ext = (ext = ''obj'')"

definition AddNewMesh :: "string \<Rightarrow> ObjState \<Rightarrow> ObjState" where
  "AddNewMesh nm this =
     (case map_of (meshNameToConverter this) nm of
        Some converter \<Rightarrow> this\<lparr>currentMeshConverter := Some converter\<rparr>
      | None \<Rightarrow>
          (let m = new_Mesh\<lparr>mesh_name := nm\<rparr>;
               converter = length (converters this)
           in this\<lparr>converters := converters this @ [new_ObjMeshConverter m],
                   currentMeshConverter := Some converter,
                   meshNameToConverter := Map_set nm converter (meshNameToConverter this)\<rparr>))"

definition GetRelativeIndex :: "jsnum \<Rightarrow> nat \<Rightarrow> jsnum" where
  "GetRelativeIndex index count =
     (case index of
        Num i \<Rightarrow> if i > 0 then Num (i - 1) else Num (int count + i)
      | NaN \<Rightarrow> NaN)"

subsection \<open>\<open>ProcessLineCommand\<close>\<close>

text \<open>
  The loop over the references of an \<open>l\<close> directive: it returns the mesh-local indices
  collected so far, the message of the error that made it \<open>break\<close> (if any), and the
  converter. The state \<open>this\<close> is only read.
\<close>

fun LineLoop ::
    "ObjState \<Rightarrow> string list \<Rightarrow> nat list \<Rightarrow> ObjMeshConverter \<Rightarrow> nat list \<times> string option \<times> ObjMeshConverter" where
  "LineLoop this [] vertices converter = (vertices, None, converter)"
| "LineLoop this (parameter # parameters) vertices converter =
     (let vertexParams = String_split (CHR ''/'') parameter;
          vertexIndex = GetRelativeIndex (parseInt (vertexParams ! 0)) (length (globalVertices this));
          (meshVertexIndex, converter') = AddVertex vertexIndex (globalVertices this) converter
      in case meshVertexIndex of
           None \<Rightarrow> (vertices, Some ''Invalid vertex index.'', converter')
         | Some i \<Rightarrow> LineLoop this parameters (vertices @ [i]) converter')"

text \<open>
  After \<open>AddNewMesh\<close> the current converter is set, so the branch for \<open>None\<close> below is
  never taken.
\<close>

definition ProcessLineCommand :: "string list \<Rightarrow> ObjState \<Rightarrow> ObjState" where
  "ProcessLineCommand parameters this0 =
     (let this = (if currentMeshConverter this0 = None then AddNewMesh [] this0 else this0) in
      case currentMeshConverter this of
        None \<Rightarrow> this
      | Some cur \<Rightarrow>
          (let (vertices, err, converter) = LineLoop this parameters [] (converters this ! cur);
               this1 = (case err of None \<Rightarrow> this | Some msg \<Rightarrow> SetError msg this);
               line = new_Line vertices;
               line' = (if currentMaterialIndex this1 \<noteq> None
                        then line\<lparr>line_mat := currentMaterialIndex this1\<rparr> else line)
           in this1\<lparr>converters := (converters this1)[cur := AddLine line' converter]\<rparr>))"

subsection \<open>\<open>ProcessFaceCommand\<close>\<close>

text \<open>The first loop: the resolved references of every kind, in the order given.\<close>

fun FaceRefs ::
    "ObjState \<Rightarrow> string list \<Rightarrow> jsnum list \<times> jsnum list \<times> jsnum list \<times> jsnum list
       \<Rightarrow> jsnum list \<times> jsnum list \<times> jsnum list \<times> jsnum list" where
  "FaceRefs this [] acc = acc"
| "FaceRefs this (parameter # parameters) (vertices, colors, normals, uvs) =
     (let vertexParams = String_split (CHR ''/'') parameter;
          vertices' = vertices @ [GetRelativeIndex (parseInt (vertexParams ! 0)) (length (globalVertices this))];
          colors' = (if length (globalVertices this) = length (globalVertexColors this)
                     then colors @ [GetRelativeIndex (parseInt (vertexParams ! 0)) (length (globalVertices this))]
                     else colors);
          uvs' = (if length vertexParams > 1 \<and> length (vertexParams ! 1) > 0
                  then uvs @ [GetRelativeIndex (parseInt (vertexParams ! 1)) (length (globalUvs this))]
                  else uvs);
          normals' = (if length vertexParams > 2 \<and> length (vertexParams ! 2) > 0
                      then normals @ [GetRelativeIndex (parseInt (vertexParams ! 2)) (length (globalNormals this))]
                      else normals)
      in FaceRefs this parameters (vertices', colors', normals', uvs'))"

text \<open>
  The body of the second loop, in its four stages. Each stage returns the triangle under
  construction, or the message of the error that makes the loop \<open>break\<close>, and the
  converter.
\<close>

definition FaceVertices ::
    "ObjState \<Rightarrow> jsnum list \<Rightarrow> nat \<Rightarrow> ObjMeshConverter \<Rightarrow> (string + Triangle) \<times> ObjMeshConverter" where
  "FaceVertices this vertices i converter =
     (let (v0, converter1) = AddVertex (vertices ! 0) (globalVertices this) converter;
          (v1, converter2) = AddVertex (vertices ! (i + 1)) (globalVertices this) converter1;
          (v2, converter3) = AddVertex (vertices ! (i + 2)) (globalVertices this) converter2
      in case (v0, v1, v2) of
           (Some a, Some b, Some c) \<Rightarrow> (Inr (new_Triangle a b c), converter3)
         | _ \<Rightarrow> (Inl ''Invalid vertex index.'', converter3))"

definition FaceColors ::
    "ObjState \<Rightarrow> jsnum list \<Rightarrow> jsnum list \<Rightarrow> nat \<Rightarrow> Triangle \<Rightarrow> ObjMeshConverter
       \<Rightarrow> (string + Triangle) \<times> ObjMeshConverter" where
  "FaceColors this vertices colors i triangle converter =
     (if length colors = length vertices then
        (let (c0, converter1) = AddVertexColor (colors ! 0) (globalVertexColors this) converter;
             (c1, converter2) = AddVertexColor (colors ! (i + 1)) (globalVertexColors this) converter1;
             (c2, converter3) = AddVertexColor (colors ! (i + 2)) (globalVertexColors this) converter2
         in case (c0, c1, c2) of
              (Some a, Some b, Some c) \<Rightarrow> (Inr (triangle\<lparr>tri_colors := Some (a, b, c)\<rparr>), converter3)
            | _ \<Rightarrow> (Inl ''Invalid vertex color index.'', converter3))
      else (Inr triangle, converter))"

definition FaceNormals ::
    "ObjState \<Rightarrow> jsnum list \<Rightarrow> jsnum list \<Rightarrow> nat \<Rightarrow> Triangle \<Rightarrow> ObjMeshConverter
       \<Rightarrow> (string + Triangle) \<times> ObjMeshConverter" where
  "FaceNormals this vertices normals i triangle converter =
     (if length normals = length vertices then
        (let (n0, converter1) = AddNormal (normals ! 0) (globalNormals this) converter;
             (n1, converter2) = AddNormal (normals ! (i + 1)) (globalNormals this) converter1;
             (n2, converter3) = AddNormal (normals ! (i + 2)) (globalNormals this) converter2
         in case (n0, n1, n2) of
              (Some a, Some b, Some c) \<Rightarrow> (Inr (triangle\<lparr>tri_normals := Some (a, b, c)\<rparr>), converter3)
            | _ \<Rightarrow> (Inl ''Invalid normal index.'', converter3))
      else (Inr triangle, converter))"

definition FaceUVs ::
    "ObjState \<Rightarrow> jsnum list \<Rightarrow> jsnum list \<Rightarrow> nat \<Rightarrow> Triangle \<Rightarrow> ObjMeshConverter
       \<Rightarrow> (string + Triangle) \<times> ObjMeshConverter" where
  "FaceUVs this vertices uvs i triangle converter =
     (if length uvs = length vertices then
        (let (u0, converter1) = AddUV (uvs ! 0) (globalUvs this) converter;
             (u1, converter2) = AddUV (uvs ! (i + 1)) (globalUvs this) converter1;
             (u2, converter3) = AddUV (uvs ! (i + 2)) (globalUvs this) converter2
         in case (u0, u1, u2) of
              (Some a, Some b, Some c) \<Rightarrow> (Inr (triangle\<lparr>tri_uvs := Some (a, b, c)\<rparr>), converter3)
            | _ \<Rightarrow> (Inl ''Invalid uv index.'', converter3))
      else (Inr triangle, converter))"

definition FaceStep ::
    "ObjState \<Rightarrow> jsnum list \<times> jsnum list \<times> jsnum list \<times> jsnum list \<Rightarrow> nat \<Rightarrow> ObjMeshConverter
       \<Rightarrow> (string + Triangle) \<times> ObjMeshConverter" where
  "FaceStep this refs i converter =
     (let (vertices, colors, normals, uvs) = refs in
      case FaceVertices this vertices i converter of
        (Inl msg, converter1) \<Rightarrow> (Inl msg, converter1)
      | (Inr triangle1, converter1) \<Rightarrow>
      (case FaceColors this vertices colors i triangle1 converter1 of
        (Inl msg, converter2) \<Rightarrow> (Inl msg, converter2)
      | (Inr triangle2, converter2) \<Rightarrow>
      (case FaceNormals this vertices normals i triangle2 converter2 of
        (Inl msg, converter3) \<Rightarrow> (Inl msg, converter3)
      | (Inr triangle3, converter3) \<Rightarrow>
      (case FaceUVs this vertices uvs i triangle3 converter3 of
        (Inl msg, converter4) \<Rightarrow> (Inl msg, converter4)
      | (Inr triangle4, converter4) \<Rightarrow>
          (Inr (if currentMaterialIndex this \<noteq> None
                then triangle4\<lparr>tri_mat := currentMaterialIndex this\<rparr> else triangle4),
           converter4)))))"

text \<open>
  The second loop, \<open>for (let i = 0; i < vertices.length - 2; i++)\<close>, from index \<open>i\<close> on.
\<close>

function FaceLoop ::
    "ObjState \<Rightarrow> jsnum list \<times> jsnum list \<times> jsnum list \<times> jsnum list \<Rightarrow> nat \<Rightarrow> ObjMeshConverter
       \<Rightarrow> string option \<times> ObjMeshConverter" where
  "FaceLoop this refs i converter =
     (if int i < int (length (fst refs)) - 2 then
        (case FaceStep this refs i converter of
           (Inl msg, converter') \<Rightarrow> (Some msg, converter')
         | (Inr triangle, converter') \<Rightarrow> FaceLoop this refs (i + 1) (AddTriangle triangle converter'))
      else (None, converter))"
  by pat_completeness auto
termination
  by (relation "measure (\<lambda>(this, refs, i, converter). length (fst refs) - i)") auto

definition ProcessFaceCommand :: "string list \<Rightarrow> ObjState \<Rightarrow> ObjState" where
  "ProcessFaceCommand parameters this0 =
     (let this = (if currentMeshConverter this0 = None then AddNewMesh [] this0 else this0) in
      case currentMeshConverter this of
        None \<Rightarrow> this
      | Some cur \<Rightarrow>
          (let refs = FaceRefs this parameters ([], [], [], []);
               (err, converter) = FaceLoop this refs 0 (converters this ! cur);
               this1 = this\<lparr>converters := (converters this)[cur := converter]\<rparr>
           in case err of None \<Rightarrow> this1 | Some msg \<Rightarrow> SetError msg this1))"

subsection \<open>\<open>ProcessMeshParameter\<close>\<close>

definition ProcessMeshParameter :: "string \<Rightarrow> string list \<Rightarrow> string \<Rightarrow> ObjState \<Rightarrow> bool \<times> ObjState" where
  "ProcessMeshParameter keyword parameters line this =
     (if keyword = ''g'' \<or> keyword = ''o'' then
        (if length parameters = 0 then (True, this)
         else (True, AddNewMesh (NameFromLine line (length keyword) (CHR ''#'')) this))
      else if keyword = ''v'' then
        (if length parameters < 3 then (True, this)
         else
           (let this1 = this\<lparr>globalVertices := globalVertices this @
                               [Coord3D (parseFloat (parameters ! 0)) (parseFloat (parameters ! 1))
                                        (parseFloat (parameters ! 2))]\<rparr>
            in if length parameters \<ge> 6
               then (True, this1\<lparr>globalVertexColors := globalVertexColors this1 @
                                   [CreateColor (parameters ! 3) (parameters ! 4) (parameters ! 5)]\<rparr>)
               else (True, this1)))
      else if keyword = ''vn'' then
        (if length parameters < 3 then (True, this)
         else (True, this\<lparr>globalNormals := globalNormals this @
                            [Coord3D (parseFloat (parameters ! 0)) (parseFloat (parameters ! 1))
                                     (parseFloat (parameters ! 2))]\<rparr>))
      else if keyword = ''vt'' then
        (if length parameters < 2 then (True, this)
         else (True, this\<lparr>globalUvs := globalUvs this @
                            [Coord2D (parseFloat (parameters ! 0)) (parseFloat (parameters ! 1))]\<rparr>))
      else if keyword = ''l'' then
        (if length parameters < 2 then (True, this)
         else (False, ProcessLineCommand parameters this))
      else if keyword = ''f'' then
        (if length parameters < 3 then (True, this)
         else (True, ProcessFaceCommand parameters this))
      else (False, this))"

subsection \<open>\<open>ProcessMaterialParameter\<close>\<close>

text \<open>
  \<open>ExtractTextureParameters\<close>: the loop runs over all parameters but the last. A \<open>get\<close>
  of \<open>lastParameter\<close> always finds the list that the \<open>set\<close> before it stored.
\<close>

fun ExtractTextureParameters_loop ::
    "string list \<Rightarrow> string option \<Rightarrow> (string \<times> string list) list \<Rightarrow> (string \<times> string list) list" where
  "ExtractTextureParameters_loop [] lastParameter textureParameters = textureParameters"
| "ExtractTextureParameters_loop (parameter # parameters) lastParameter textureParameters =
     (if startsWith parameter ''-''
      then ExtractTextureParameters_loop parameters (Some parameter) (Map_set parameter [] textureParameters)
      else (case lastParameter of
              None \<Rightarrow> ExtractTextureParameters_loop parameters lastParameter textureParameters
            | Some lp \<Rightarrow>
                ExtractTextureParameters_loop parameters lastParameter
                  (case map_of textureParameters lp of
                     None \<Rightarrow> textureParameters
                   | Some ps \<Rightarrow> Map_set lp (ps @ [parameter]) textureParameters)))"

definition ExtractTextureParameters :: "string list \<Rightarrow> (string \<times> string list) list" where
  "ExtractTextureParameters parameters = ExtractTextureParameters_loop (butlast parameters) None []"

text \<open>
  \<open>CreateTexture\<close> asks the callbacks for the buffer of the trailing file name, so it
  returns the callbacks' state with the texture. The caller has checked that there is a
  parameter.
\<close>

definition CreateTexture ::
    "string list \<Rightarrow> ImporterFileAccessor \<times> Importer \<Rightarrow> TextureMap \<times> ImporterFileAccessor \<times> Importer" where
  "CreateTexture parameters cb =
     (let textureName = parameters ! (length parameters - 1);
          (textureBuffer, cb') = GetFileBuffer getBufferCallback textureName cb;
          texture = new_TextureMap\<lparr>tex_name := textureName, tex_buffer := textureBuffer\<rparr>;
          textureParameters = ExtractTextureParameters parameters;
          texture1 = (case map_of textureParameters ''-o'' of
                        None \<Rightarrow> texture
                      | Some offsetParameters \<Rightarrow>
                          (let t = (if length offsetParameters > 0
                                    then texture\<lparr>offset_x := Some (parseFloat (offsetParameters ! 0))\<rparr>
                                    else texture)
                           in if length offsetParameters > 1
                              then t\<lparr>offset_y := Some (parseFloat (offsetParameters ! 1))\<rparr> else t));
          texture2 = (case map_of textureParameters ''-s'' of
                        None \<Rightarrow> texture1
                      | Some scaleParameters \<Rightarrow>
                          (let t = (if length scaleParameters > 0
                                    then texture1\<lparr>scale_x := Some (parseFloat (scaleParameters ! 0))\<rparr>
                                    else texture1)
                           in if length scaleParameters > 1
                              then t\<lparr>scale_y := Some (parseFloat (scaleParameters ! 1))\<rparr> else t))
      in (texture2, cb'))"

text \<open>
  A write to a field of \<open>this.currentMaterial\<close>: the material object is the one in the
  model's list at the index \<open>currentMaterial\<close> holds.
\<close>

definition updateCurrentMaterial :: "(PhongMaterial \<Rightarrow> PhongMaterial) \<Rightarrow> ObjState \<Rightarrow> ObjState" where
  "updateCurrentMaterial f this =
     (case currentMaterial this of
        None \<Rightarrow> this
      | Some cur \<Rightarrow> this\<lparr>materials := (materials this)[cur := f (materials this ! cur)]\<rparr>)"

text \<open>
  A run of the importer either returns or stops with a fault: an exception (a payload
  that is no buffer is decoded) or a nesting of \<open>mtllib\<close> files deeper than the bound the
  model is run with (see \<open>ProcessLine\<close> below).
\<close>

datatype fault = NotABuffer | NestingTooDeep

text \<open>
  \<open>ProcessMaterialParameter\<close>. The \<open>mtllib\<close> branch reads the lines of the library
  through \<open>ReadLines\<close> with a callback that calls \<open>ProcessLine\<close> again; this recursive use
  is the parameter \<open>readLines\<close>, bound where \<open>ProcessLine\<close> is defined.
\<close>

definition ProcessMaterialParameter ::
    "(string list \<Rightarrow> ObjState \<Rightarrow> fault + ObjState) \<Rightarrow> string \<Rightarrow> string list \<Rightarrow> string \<Rightarrow> ObjState
       \<Rightarrow> fault + bool \<times> ObjState" where
  "ProcessMaterialParameter readLines keyword parameters line this =
     (if keyword = ''newmtl'' then
        (if length parameters = 0 then Inr (True, this)
         else
           (let materialName = NameFromLine line (length keyword) (CHR ''#'');
                materialIndex = length (materials this)
            in Inr (True, this\<lparr>materials := materials this @ [new_PhongMaterial\<lparr>mat_name := materialName\<rparr>],
                                currentMaterial := Some materialIndex,
                                materialNameToIndex :=
                                  Map_set materialName materialIndex (materialNameToIndex this)\<rparr>)))
      else if keyword = ''usemtl'' then
        (if length parameters = 0 then Inr (True, this)
         else
           (let materialName = NameFromLine line (length keyword) (CHR ''#'')
            in case map_of (materialNameToIndex this) materialName of
                 Some materialIndex \<Rightarrow> Inr (True, this\<lparr>currentMaterialIndex := Some materialIndex\<rparr>)
               | None \<Rightarrow> Inr (True, this)))
      else if keyword = ''mtllib'' then
        (if length parameters = 0 then Inr (True, this)
         else
           (let fileName = NameFromLine line (length keyword) (CHR ''#'');
                (fileBuffer, cb) = GetFileBuffer getBufferCallback fileName (callbacks this);
                this1 = this\<lparr>callbacks := cb\<rparr>
            in if fileBuffer \<noteq> Null then
                 (case ArrayBufferToUtf8String fileBuffer of
                    None \<Rightarrow> Inl NotABuffer
                  | Some textContent \<Rightarrow>
                      (case readLines (ReadLines textContent) this1 of
                         Inl f \<Rightarrow> Inl f
                       | Inr this2 \<Rightarrow> Inr (True, this2)))
               else Inr (True, this1)))
      else if keyword = ''map_kd'' then
        (if currentMaterial this = None \<or> length parameters = 0 then Inr (True, this)
         else
           (let (texture, cb) = CreateTexture parameters (callbacks this)
            in Inr (True, updateCurrentMaterial
                            (\<lambda>m. UpdateMaterialTransparency (m\<lparr>diffuseMap := Some texture\<rparr>))
                            (this\<lparr>callbacks := cb\<rparr>))))
      else if keyword = ''map_ks'' then
        (if currentMaterial this = None \<or> length parameters = 0 then Inr (True, this)
         else
           (let (texture, cb) = CreateTexture parameters (callbacks this)
            in Inr (True, updateCurrentMaterial (\<lambda>m. m\<lparr>specularMap := Some texture\<rparr>)
                            (this\<lparr>callbacks := cb\<rparr>))))
      else if keyword = ''map_bump'' \<or> keyword = ''bump'' then
        (if currentMaterial this = None \<or> length parameters = 0 then Inr (True, this)
         else
           (let (texture, cb) = CreateTexture parameters (callbacks this)
            in Inr (True, updateCurrentMaterial (\<lambda>m. m\<lparr>bumpMap := Some texture\<rparr>)
                            (this\<lparr>callbacks := cb\<rparr>))))
      else if keyword = ''ka'' then
        (if currentMaterial this = None \<or> length parameters < 3 then Inr (True, this)
         else Inr (True, updateCurrentMaterial
                           (\<lambda>m. m\<lparr>ambient := Some (CreateColor (parameters ! 0) (parameters ! 1) (parameters ! 2))\<rparr>)
                           this))
      else if keyword = ''kd'' then
        (if currentMaterial this = None \<or> length parameters < 3 then Inr (True, this)
         else Inr (True, updateCurrentMaterial
                           (\<lambda>m. m\<lparr>color := Some (CreateColor (parameters ! 0) (parameters ! 1) (parameters ! 2))\<rparr>)
                           this))
      else if keyword = ''ks'' then
        (if currentMaterial this = None \<or> length parameters < 3 then Inr (True, this)
         else Inr (True, updateCurrentMaterial
                           (\<lambda>m. m\<lparr>specular := Some (CreateColor (parameters ! 0) (parameters ! 1) (parameters ! 2))\<rparr>)
                           this))
      else if keyword = ''ns'' then
        (if currentMaterial this = None \<or> length parameters < 1 then Inr (True, this)
         else Inr (True, updateCurrentMaterial
                           (\<lambda>m. m\<lparr>shininess := Some (DividedBy1000 (parseFloat (parameters ! 0)))\<rparr>) this))
      else if keyword = ''tr'' then
        (if currentMaterial this = None \<or> length parameters < 1 then Inr (True, this)
         else Inr (True, updateCurrentMaterial
                           (\<lambda>m. UpdateMaterialTransparency
                                   (m\<lparr>opacity := Some (OneMinus (parseFloat (parameters ! 0)))\<rparr>)) this))
      else if keyword = ''d'' then
        (if currentMaterial this = None \<or> length parameters < 1 then Inr (True, this)
         else Inr (True, updateCurrentMaterial
                           (\<lambda>m. UpdateMaterialTransparency
                                   (m\<lparr>opacity := Some (parseFloat (parameters ! 0))\<rparr>)) this))
      else Inr (False, this))"

subsection \<open>\<open>ProcessLine\<close> and \<open>ImportContent\<close>\<close>

definition ProcessLine_body ::
    "(string list \<Rightarrow> ObjState \<Rightarrow> fault + ObjState) \<Rightarrow> string \<Rightarrow> ObjState \<Rightarrow> fault + ObjState" where
  "ProcessLine_body readLines line this =
     (if line \<noteq> [] \<and> line ! 0 = CHR ''#'' then Inr this
      else
        (let parameters0 = ParametersFromLine line (CHR ''#'') in
         if length parameters0 = 0 then Inr this
         else
           (let keyword = toLowerCase (parameters0 ! 0);
                parameters = tl parameters0
            in case ProcessMeshParameter keyword parameters line this of
                 (True, this1) \<Rightarrow> Inr this1
               | (False, this1) \<Rightarrow>
                   (case ProcessMaterialParameter readLines keyword parameters line this1 of
                      Inl f \<Rightarrow> Inl f
                    | Inr (handled, this2) \<Rightarrow> Inr this2))))"

text \<open>
  The callback that both \<open>ImportContent\<close> and the \<open>mtllib\<close> branch hand to \<open>ReadLines\<close>:
  a line is processed only while no error is flagged.
\<close>

fun ReadLines_callback ::
    "(string \<Rightarrow> ObjState \<Rightarrow> fault + ObjState) \<Rightarrow> string list \<Rightarrow> ObjState \<Rightarrow> fault + ObjState" where
  "ReadLines_callback processLine [] this = Inr this"
| "ReadLines_callback processLine (line # lines) this =
     (if \<not> WasError this then
        (case processLine line this of
           Inl f \<Rightarrow> Inl f
         | Inr this1 \<Rightarrow> ReadLines_callback processLine lines this1)
      else ReadLines_callback processLine lines this)"

text \<open>
  \<open>ProcessLine\<close> calls itself through \<open>mtllib\<close>, with nothing in the source that bounds
  the nesting (a library that names itself recurses for ever). The model is run with a
  bound \<open>depth\<close> on the nesting of libraries: a line that would need a deeper nesting
  stops the run with \<open>NestingTooDeep\<close>.
\<close>

primrec ProcessLine :: "nat \<Rightarrow> string \<Rightarrow> ObjState \<Rightarrow> fault + ObjState" where
  "ProcessLine 0 line this = ProcessLine_body (\<lambda>lines this1. Inl NestingTooDeep) line this"
| "ProcessLine (Suc depth) line this =
     ProcessLine_body (ReadLines_callback (ProcessLine depth)) line this"

definition ImportContent :: "nat \<Rightarrow> payload \<Rightarrow> ObjState \<Rightarrow> fault + ObjState" where
  "ImportContent depth fileContent this =
     (case ArrayBufferToUtf8String fileContent of
        None \<Rightarrow> Inl NotABuffer
      | Some textContent \<Rightarrow> ReadLines_callback (ProcessLine depth) (ReadLines textContent) this)"

section \<open>Predicates and example inputs used by the properties\<close>

text \<open>No two files of the list have the same name, compared case-insensitively.\<close>

definition NameUnique :: "ImporterFileList \<Rightarrow> bool" where
  "NameUnique files = distinct (map (\<lambda>file. toLowerCase (name file)) files)"

text \<open>The events that are loads, as opposed to progress reports.\<close>

fun isLoadEvent :: "LoadEvent \<Rightarrow> bool" where
  "isLoadEvent (FileListProgress index count) = False"
| "isLoadEvent (UrlRequested d) = True"
| "isLoadEvent (FileRead d) = True"

definition exampleLoaders :: Loaders where
  "exampleLoaders = \<lparr> RequestUrl = (\<lambda>d. Some (ArrayBuffer ''v 0 0 0'')), ReadFile = (\<lambda>d. None) \<rparr>"

definition exampleInputs :: "InputFile list" where
  "exampleInputs =
     [\<lparr> name = ''models/cube.obj'', source = Url, data = UrlString ''http://host/models/cube.obj'' \<rparr>,
      \<lparr> name = ''cube.mtl'', source = Url, data = Null \<rparr>,
      \<lparr> name = ''wood.png'', source = File, data = FileObject 7 \<rparr>]"

definition exampleDuplicateInputs :: "InputFile list" where
  "exampleDuplicateInputs =
     [\<lparr> name = ''cube.obj'', source = Url, data = Null \<rparr>,
      \<lparr> name = ''upload/CUBE.OBJ'', source = File, data = Null \<rparr>]"

definition exampleArchive :: ImporterFileList where
  "exampleArchive = [SetContent (ArrayBuffer ''PK'') (new_ImporterFile ''textures.zip'' File Null)]"

definition exampleUnzip :: "payload \<Rightarrow> (string \<times> string) list option" where
  "exampleUnzip archiveBuffer = Some [(''a/wood.png'', ''x''), (''b/Wood.PNG'', ''y'')]"

text \<open>
  An orchestrator after an import of \<open>cube.obj\<close> that asked for \<open>cube.mtl\<close> (found) and
  \<open>wood.png\<close> (missing), and three sets of inputs for the next \<open>LoadFiles\<close>.
\<close>

definition exampleImporter :: Importer where
  "exampleImporter =
     \<lparr> importers = [CanImportExtension],
       fileList = FillFromInputFiles
         [\<lparr> name = ''cube.obj'', source = File,
            data = ArrayBuffer (''mtllib cube.mtl'' @ [CHR 0x0A] @ ''v 0 0 0'') \<rparr>,
          \<lparr> name = ''cube.mtl'', source = File,
            data = ArrayBuffer (''newmtl wood'' @ [CHR 0x0A] @ ''map_Kd textures/wood.png'') \<rparr>],
       usedFiles = [''cube.obj'', ''cube.mtl''],
       missingFiles = [''wood.png''] \<rparr>"

definition exampleSupplied :: "InputFile list" where
  "exampleSupplied =
     [\<lparr> name = ''Cube.MTL'', source = File, data = ArrayBuffer ''newmtl steel'' \<rparr>,
      \<lparr> name = ''wood.png'', source = File, data = ArrayBuffer ''PNG'' \<rparr>,
      \<lparr> name = ''pictures/WOOD.PNG'', source = File, data = ArrayBuffer ''PNG2'' \<rparr>]"

definition exampleUnrelated :: "InputFile list" where
  "exampleUnrelated = [\<lparr> name = ''notes.txt'', source = File, data = ArrayBuffer ''hello'' \<rparr>]"

text \<open>
  The invariant behind C10: the orchestrator's used-files list is the main file followed
  by \<open>used\<close>, the names in \<open>used\<close> and in the missing-files list are pairwise different,
  and they are the keys \<open>K\<close> of the accessor's cache.
\<close>

definition Attributed :: "string \<Rightarrow> string set \<Rightarrow> ImporterFileAccessor \<times> Importer \<Rightarrow> bool" where
  "Attributed m K st =
     (case st of (acc, this) \<Rightarrow>
        (\<exists>used. usedFiles this = m # used \<and> distinct (used @ missingFiles this) \<and>
                set (used @ missingFiles this) = K) \<and>
        dom (map_of (fileBuffers acc)) = K)"

text \<open>
  A resolved index is in range of a global sequence of \<open>count\<close> values when it is a
  number \<open>i\<close> with \<open>0 \<le> i < count\<close>; \<open>globalOf\<close> is that position.
\<close>

fun InRange :: "jsnum \<Rightarrow> nat \<Rightarrow> bool" where
  "InRange (Num i) count = (0 \<le> i \<and> i < int count)"
| "InRange NaN count = False"

fun globalOf :: "jsnum \<Rightarrow> nat" where
  "globalOf (Num i) = nat i"
| "globalOf NaN = 0"

text \<open>
  The calls that the importer makes on one mesh converter, and a sequence of them; each
  reference carries the global sequence as it is at the time of the call.
\<close>

datatype ConverterCall =
    CallAddVertex jsnum "Coord3D list"
  | CallAddVertexColor jsnum "RGBColor list"
  | CallAddNormal jsnum "Coord3D list"
  | CallAddUV jsnum "Coord2D list"
  | CallAddLine Line
  | CallAddTriangle Triangle

fun converterCall :: "ConverterCall \<Rightarrow> ObjMeshConverter \<Rightarrow> ObjMeshConverter" where
  "converterCall (CallAddVertex g gs) this = snd (AddVertex g gs this)"
| "converterCall (CallAddVertexColor g gs) this = snd (AddVertexColor g gs this)"
| "converterCall (CallAddNormal g gs) this = snd (AddNormal g gs this)"
| "converterCall (CallAddUV g gs) this = snd (AddUV g gs this)"
| "converterCall (CallAddLine l) this = AddLine l this"
| "converterCall (CallAddTriangle t) this = AddTriangle t this"

definition converterCalls :: "ConverterCall list \<Rightarrow> ObjMeshConverter \<Rightarrow> ObjMeshConverter" where
  "converterCalls cs this = foldl (\<lambda>converter c. converterCall c converter) this cs"

text \<open>
  What C9 asks of one attribute kind, given by its \<open>Add...\<close> method, its map and its
  buffer in the mesh. For a global index \<open>g\<close> that is in range at a first and at a later
  reference, with any calls on the converter in between: the first reference returns a
  mesh-local index; if \<open>g\<close> was not in the map, that index is the next free position of
  the buffer, the value at \<open>g\<close> is appended there and nothing else changes in the buffer;
  the map then holds that index for \<open>g\<close>; and the later reference returns the same index
  and leaves the converter, mesh and maps, as it is.
\<close>

definition DeduplicatesReferences ::
    "(jsnum \<Rightarrow> 'v list \<Rightarrow> ObjMeshConverter \<Rightarrow> nat option \<times> ObjMeshConverter)
       \<Rightarrow> (ObjMeshConverter \<Rightarrow> (nat \<times> nat) list) \<Rightarrow> (Mesh \<Rightarrow> 'v list) \<Rightarrow> bool" where
  "DeduplicatesReferences add indices buffer =
     (\<forall>g gs gs' this calls.
        InRange g (length gs) \<and> InRange g (length gs') \<longrightarrow>
        (let (r1, this1) = add g gs this;
             this2 = converterCalls calls this1;
             (r2, this3) = add g gs' this2
         in r1 \<noteq> None \<and>
            (map_of (indices this) (globalOf g) = None \<longrightarrow>
               r1 = Some (length (buffer (mesh this))) \<and>
               buffer (mesh this1) = buffer (mesh this) @ [gs ! globalOf g]) \<and>
            (map_of (indices this) (globalOf g) \<noteq> None \<longrightarrow>
               r1 = map_of (indices this) (globalOf g) \<and> this1 = this) \<and>
            map_of (indices this1) (globalOf g) = r1 \<and>
            r2 = r1 \<and> this3 = this2))"

subsection \<open>Reading the parser state\<close>

text \<open>
  The global vertex indices that the parameters of a face or line directive resolve to:
  the first field of each parameter, parsed and resolved against the vertices declared so
  far, as \<open>ProcessLineCommand\<close> and \<open>ProcessFaceCommand\<close> compute them.
\<close>

definition VertexRefs :: "ObjState \<Rightarrow> string list \<Rightarrow> jsnum list" where
  "VertexRefs this parameters =
     map (\<lambda>parameter. GetRelativeIndex (parseInt (String_split (CHR ''/'') parameter ! 0))
                        (length (globalVertices this))) parameters"

text \<open>
  The converter of the current mesh, its triangles, and the mesh-local index that the
  current mesh holds for a global vertex index.
\<close>

definition currentConverter :: "ObjState \<Rightarrow> ObjMeshConverter option" where
  "currentConverter this =
     (case currentMeshConverter this of None \<Rightarrow> None | Some cur \<Rightarrow> Some (converters this ! cur))"

definition currentTriangles :: "ObjState \<Rightarrow> Triangle list" where
  "currentTriangles this =
     (case currentConverter this of None \<Rightarrow> [] | Some converter \<Rightarrow> mesh_triangles (mesh converter))"


text \<open>
  The references of the state point into the store of converters: the current mesh and
  every named mesh is a converter that exists, and while there is no current mesh no
  converter has been made. \<open>ResetContent\<close> establishes this and every directive keeps it.
\<close>

definition WellFormed :: "ObjState \<Rightarrow> bool" where
  "WellFormed this =
     ((case currentMeshConverter this of
         None \<Rightarrow> meshNameToConverter this = [] \<and> converters this = []
       | Some cur \<Rightarrow> cur < length (converters this)) \<and>
      list_all (\<lambda>(nm, converter). converter < length (converters this)) (meshNameToConverter this))"

text \<open>
  While no material is current, no material has a name in the map: \<open>newmtl\<close> is the only
  directive that enters a name, and it makes its material current.
\<close>

definition MaterialInvariant :: "ObjState \<Rightarrow> bool" where
  "MaterialInvariant this = (currentMaterial this = None \<longrightarrow> materialNameToIndex this = [])"

definition Inv :: "ObjState \<Rightarrow> bool" where
  "Inv this = (WellFormed this \<and> MaterialInvariant this)"

text \<open>The fields that \<open>WellFormed\<close> reads are the same in two states.\<close>

definition SameMeshes :: "ObjState \<Rightarrow> ObjState \<Rightarrow> bool" where
  "SameMeshes this this' =
     (converters this' = converters this \<and> meshNameToConverter this' = meshNameToConverter this \<and>
      currentMeshConverter this' = currentMeshConverter this)"

subsection \<open>What one pass of the face loop does\<close>

text \<open>
  A converter's vertex map only grows (\<open>MapExt\<close>); the attribute stages of a pass also
  leave the triangles and lines of the mesh as they are (\<open>Extends\<close>).
\<close>

definition MapExt :: "ObjMeshConverter \<Rightarrow> ObjMeshConverter \<Rightarrow> bool" where
  "MapExt c c' = (\<forall>k v. map_of (globalToMeshVertices c) k = Some v
                     \<longrightarrow> map_of (globalToMeshVertices c') k = Some v)"

definition Extends :: "ObjMeshConverter \<Rightarrow> ObjMeshConverter \<Rightarrow> bool" where
  "Extends c c' = (MapExt c c' \<and> mesh_triangles (mesh c') = mesh_triangles (mesh c) \<and>
                   mesh_lines (mesh c') = mesh_lines (mesh c))"

text \<open>
  Triangle \<open>t\<close> is the \<open>j\<close>-th triangle of the fan over the vertex references \<open>vs\<close>: its
  corners are the mesh-local indices of the references \<open>0\<close>, \<open>j + 1\<close> and \<open>j + 2\<close>.
\<close>

definition FanTriangle :: "ObjMeshConverter \<Rightarrow> jsnum list \<Rightarrow> nat \<Rightarrow> Triangle \<Rightarrow> bool" where
  "FanTriangle c vs j t =
     (map_of (globalToMeshVertices c) (globalOf (vs ! 0)) = Some (tri_v0 t) \<and>
      map_of (globalToMeshVertices c) (globalOf (vs ! (j + 1))) = Some (tri_v1 t) \<and>
      map_of (globalToMeshVertices c) (globalOf (vs ! (j + 2))) = Some (tri_v2 t))"

text \<open>
  Pass \<open>i\<close> of the face loop finds every reference it resolves in range: the three vertex
  references, and the three references of each attribute kind that the face attaches.
\<close>

definition StepInRange ::
    "ObjState \<Rightarrow> jsnum list \<times> jsnum list \<times> jsnum list \<times> jsnum list \<Rightarrow> nat \<Rightarrow> bool" where
  "StepInRange this refs i =
     (case refs of (vertices, colors, normals, uvs) \<Rightarrow>
        (InRange (vertices ! 0) (length (globalVertices this)) \<and>
         InRange (vertices ! (i + 1)) (length (globalVertices this)) \<and>
         InRange (vertices ! (i + 2)) (length (globalVertices this))) \<and>
        (length colors = length vertices \<longrightarrow>
           InRange (colors ! 0) (length (globalVertexColors this)) \<and>
           InRange (colors ! (i + 1)) (length (globalVertexColors this)) \<and>
           InRange (colors ! (i + 2)) (length (globalVertexColors this))) \<and>
        (length normals = length vertices \<longrightarrow>
           InRange (normals ! 0) (length (globalNormals this)) \<and>
           InRange (normals ! (i + 1)) (length (globalNormals this)) \<and>
           InRange (normals ! (i + 2)) (length (globalNormals this))) \<and>
        (length uvs = length vertices \<longrightarrow>
           InRange (uvs ! 0) (length (globalUvs this)) \<and>
           InRange (uvs ! (i + 1)) (length (globalUvs this)) \<and>
           InRange (uvs ! (i + 2)) (length (globalUvs this))))"

text \<open>
  Triangle \<open>t\<close> carries an attribute kind exactly when the face has as many references of
  that kind as vertex references.
\<close>

definition Attached ::
    "jsnum list \<times> jsnum list \<times> jsnum list \<times> jsnum list \<Rightarrow> Triangle \<Rightarrow> bool" where
  "Attached refs t =
     (case refs of (vertices, colors, normals, uvs) \<Rightarrow>
        (tri_colors t \<noteq> None \<longleftrightarrow> length colors = length vertices) \<and>
        (tri_normals t \<noteq> None \<longleftrightarrow> length normals = length vertices) \<and>
        (tri_uvs t \<noteq> None \<longleftrightarrow> length uvs = length vertices))"

text \<open>
  What the face loop, started at pass \<open>i\<close> on converter \<open>c\<close>, has done when it returns
  converter \<open>c'\<close> and the error \<open>err\<close>: it has appended the triangles \<open>new\<close>, one for each
  pass from \<open>i\<close> on, each a fan triangle with the face's attributes and the current
  material; it stops without error after the last pass, and with an error at the first
  pass that finds a reference out of range.
\<close>

definition FaceLoopPost ::
    "ObjState \<Rightarrow> jsnum list \<times> jsnum list \<times> jsnum list \<times> jsnum list \<Rightarrow> nat
       \<Rightarrow> ObjMeshConverter \<Rightarrow> string option \<Rightarrow> ObjMeshConverter \<Rightarrow> Triangle list \<Rightarrow> bool" where
  "FaceLoopPost this refs i c err c' new =
     (MapExt c c' \<and> mesh_lines (mesh c') = mesh_lines (mesh c) \<and>
      mesh_triangles (mesh c') = mesh_triangles (mesh c) @ new \<and>
      (\<forall>j<length new. FanTriangle c' (fst refs) (i + j) (new ! j) \<and> Attached refs (new ! j) \<and>
                       tri_mat (new ! j) = currentMaterialIndex this \<and>
                       StepInRange this refs (i + j)) \<and>
      (new \<noteq> [] \<longrightarrow> int (i + length new) \<le> int (length (fst refs)) - 2) \<and>
      (err = None \<longrightarrow> int (length (fst refs)) - 2 \<le> int (i + length new)) \<and>
      (err \<noteq> None \<longrightarrow> int (i + length new) < int (length (fst refs)) - 2 \<and>
                        \<not> StepInRange this refs (i + length new)))"

subsection \<open>Example parses\<close>

text \<open>
  The parser as \<open>ImportLoadedMainFile\<close> starts it on \<open>cube.obj\<close> of the example importer,
  and the state after a sequence of lines of the file.
\<close>

definition exampleState0 :: ObjState where
  "exampleState0 = ResetContent (ImportLoadedMainFile_begin (fileList exampleImporter ! 0) exampleImporter)"

definition exampleAfter :: "string list \<Rightarrow> ObjState" where
  "exampleAfter lines =
     (case ReadLines_callback (ProcessLine 1) lines exampleState0 of
        Inr this \<Rightarrow> this
      | Inl f \<Rightarrow> exampleState0)"

definition squareLines :: "string list" where
  "squareLines = [''v 0 0 0'', ''v 1 0 0'', ''v 1 1 0'', ''v 0 1 0'']"



definition exampleGlobals :: "Coord3D list" where
  "exampleGlobals =
     [Coord3D (parseFloat ''0'') (parseFloat ''0'') (parseFloat ''0''),
      Coord3D (parseFloat ''1'') (parseFloat ''0'') (parseFloat ''0''),
      Coord3D (parseFloat ''1'') (parseFloat ''1'') (parseFloat ''0'')]"

definition exampleCalls :: "ConverterCall list" where
  "exampleCalls =
     [CallAddVertex (Num 0) exampleGlobals, CallAddTriangle (new_Triangle 0 1 1),
      CallAddVertex (Num 2) exampleGlobals, CallAddNormal (Num 2) exampleGlobals]"

section \<open>Properties of the file set\<close>

lemma GetFileName_idem: "GetFileName (GetFileName p) = GetFileName p"
  by (simp add: GetFileName_def)

lemma FillFromInputFiles_map:
  "FillFromInputFiles inputs = map (\<lambda>i. new_ImporterFile (name i) (source i) (data i)) inputs"
proof -
  have "foldl (\<lambda>files i. files @ [new_ImporterFile (name i) (source i) (data i)]) acc inputs
        = acc @ map (\<lambda>i. new_ImporterFile (name i) (source i) (data i)) inputs" for acc
    by (induction inputs arbitrary: acc) simp_all
  then show ?thesis by (simp add: FillFromInputFiles_def)
qed

lemma name_new_ImporterFile: "name (new_ImporterFile n s d) = GetFileName n"
  and content_new_ImporterFile: "content (new_ImporterFile n s d) = d"
  and data_new_ImporterFile: "data (new_ImporterFile n s d) = d"
  and source_new_ImporterFile: "source (new_ImporterFile n s d) = s"
  by (simp_all add: new_ImporterFile_def)

lemma FillFromInputFiles_normalised:
  "f \<in> set (FillFromInputFiles inputs) \<Longrightarrow> GetFileName (name f) = name f"
  by (auto simp: FillFromInputFiles_map name_new_ImporterFile GetFileName_idem)

lemma ContainsFileByPath_iff:
  "ContainsFileByPath files p \<longleftrightarrow> toLowerCase (GetFileName p) \<in> (\<lambda>f. toLowerCase (name f)) ` set files"
  by (force simp: ContainsFileByPath_def FindFileByPath_def Let_def find_None_iff image_iff)

lemma ExtendFromFileList_snoc:
  "ExtendFromFileList this (other @ [f]) =
     (if \<not> ContainsFileByPath (ExtendFromFileList this other) (name f)
      then ExtendFromFileList this other @ [f] else ExtendFromFileList this other)"
  by (simp add: ExtendFromFileList_def)

lemma ExtendFromFileList_Nil: "ExtendFromFileList this [] = this"
  by (simp add: ExtendFromFileList_def)

lemma ExtendFromFileList_names:
  "\<forall>f \<in> set other. GetFileName (name f) = name f \<Longrightarrow>
   (\<lambda>f. toLowerCase (name f)) ` set (ExtendFromFileList this other)
     = (\<lambda>f. toLowerCase (name f)) ` set (this @ other)"
proof (induction other rule: rev_induct)
  case Nil
  then show ?case by (simp add: ExtendFromFileList_Nil)
next
  case (snoc x xs)
  then show ?case
    by (auto simp: ExtendFromFileList_snoc ContainsFileByPath_iff)
qed

lemma ExtendFromFileList_unique:
  "NameUnique this \<Longrightarrow> \<forall>f \<in> set other. GetFileName (name f) = name f \<Longrightarrow>
   NameUnique (ExtendFromFileList this other)"
proof (induction other rule: rev_induct)
  case Nil
  then show ?case by (simp add: ExtendFromFileList_Nil)
next
  case (snoc x xs)
  then show ?case
    by (auto simp: ExtendFromFileList_snoc ContainsFileByPath_iff NameUnique_def)
qed

text \<open>
  What the merge appends: the files of \<open>other\<close> whose name, compared case-insensitively,
  is neither in \<open>this\<close> nor among the files of \<open>other\<close> before them.
\<close>

lemma ExtendFromFileList_exact:
  "\<forall>f \<in> set other. GetFileName (name f) = name f \<Longrightarrow>
   ExtendFromFileList this other =
     this @ map (\<lambda>i. other ! i)
              (filter (\<lambda>i. \<not> ContainsFileByPath (this @ take i other) (name (other ! i)))
                 [0..<length other])"
proof (induction other rule: rev_induct)
  case Nil
  then show ?case by (simp add: ExtendFromFileList_Nil)
next
  case (snoc x xs)
  have norm: "\<forall>f \<in> set xs. GetFileName (name f) = name f" using snoc.prems by simp
  have IH: "ExtendFromFileList this xs =
     this @ map (\<lambda>i. xs ! i)
              (filter (\<lambda>i. \<not> ContainsFileByPath (this @ take i xs) (name (xs ! i))) [0..<length xs])"
    using snoc.IH norm by blast
  have same: "ContainsFileByPath (ExtendFromFileList this xs) p = ContainsFileByPath (this @ xs) p" for p
    unfolding ContainsFileByPath_iff using ExtendFromFileList_names[OF norm] by simp
  have old: "map (\<lambda>i. (xs @ [x]) ! i)
              (filter (\<lambda>i. \<not> ContainsFileByPath (this @ take i (xs @ [x])) (name ((xs @ [x]) ! i))) [0..<length xs])
            = map (\<lambda>i. xs ! i)
              (filter (\<lambda>i. \<not> ContainsFileByPath (this @ take i xs) (name (xs ! i))) [0..<length xs])"
    by (rule trans[OF map_cong[OF filter_cong[OF refl] refl]])
       (auto simp: nth_append)
  have upt_snoc: "[0..<length (xs @ [x])] = [0..<length xs] @ [length xs]" by simp
  show ?case
    unfolding ExtendFromFileList_snoc same upt_snoc filter_append map_append old
    by (simp add: IH)
qed

lemma GetContent_from_files:
  "fst (GetContent_from io index count files) = map (\<lambda>f. fst (GetFileContent io f)) files"
  by (induction files arbitrary: index) (simp_all add: split_def Let_def)

lemma GetFileContent_events:
  "snd (GetFileContent io f) =
     (if content f \<noteq> Null then []
      else if source f = Url then [UrlRequested (data f)]
      else if source f = File then [FileRead (data f)] else [])"
  by (simp add: GetFileContent_def split: option.splits)

lemma GetContent_from_events:
  "filter isLoadEvent (snd (GetContent_from io index count files)) =
     concat (map (\<lambda>f. snd (GetFileContent io f)) files)"
proof (induction files arbitrary: index)
  case Nil
  then show ?case by simp
next
  case (Cons f fs)
  have "filter isLoadEvent (snd (GetFileContent io f)) = snd (GetFileContent io f)"
    by (simp add: GetFileContent_events)
  with Cons show ?case by (simp add: split_def Let_def)
qed

lemma GetFileContent_loaded:
  "content f \<noteq> Null \<Longrightarrow> GetFileContent io f = (f, [])"
  by (simp add: GetFileContent_def)

lemma GetFileContent_assigned:
  "content (fst (GetFileContent io f)) \<noteq> content f \<Longrightarrow>
     content f = Null \<and>
     (source f = Url \<and> RequestUrl io (data f) = Some (content (fst (GetFileContent io f))) \<or>
      source f = File \<and> ReadFile io (data f) = Some (content (fst (GetFileContent io f))))"
  by (auto simp: GetFileContent_def SetContent_def split: if_splits option.splits)

subsection \<open>C1: the content of a new file\<close>

text \<open>
  C1 says that the file made from an input with source \<open>Url\<close> or \<open>File\<close> has content
  \<open>null\<close>, so that \<open>GetContent\<close> loads it. The constructor sets the content to the
  input's data whatever the source is: the file made from a URL input has the URL string
  as its content, and \<open>GetContent\<close> asks for no load of it.
\<close>

theorem C1_counterexample:
  "source (exampleInputs ! 0) = Url \<and>
   content (FillFromInputFiles exampleInputs ! 0) = UrlString ''http://host/models/cube.obj'' \<and>
   GetContent exampleLoaders [FillFromInputFiles exampleInputs ! 0] =
     ([FillFromInputFiles exampleInputs ! 0], [FileListProgress 0 1])"
  by code_simp

text \<open>
  C1, as the code has it. The content of every file that \<open>FillFromInputFiles\<close> makes is
  the data of its input. \<open>GetContent\<close> then asks for a load of exactly the files whose
  content is \<open>null\<close> and whose source is \<open>Url\<close> or \<open>File\<close>, in list order; it leaves a file
  with content as it is; and where the content of a file has changed, it was \<open>null\<close>
  before and is what the loader of the file's source resolved with.
\<close>

theorem C1_content_from_data:
  "let files = FillFromInputFiles inputs;
       (files', events) = GetContent io files
   in map content files = map data inputs \<and>
      length files' = length files \<and>
      filter isLoadEvent events =
        concat (map (\<lambda>f. if content f \<noteq> Null then []
                          else if source f = Url then [UrlRequested (data f)]
                          else if source f = File then [FileRead (data f)] else []) files) \<and>
      (\<forall>i < length files. content (files ! i) \<noteq> Null \<longrightarrow> files' ! i = files ! i) \<and>
      (\<forall>i < length files. content (files' ! i) \<noteq> content (files ! i) \<longrightarrow>
         content (files ! i) = Null \<and>
         (source (files ! i) = Url \<and> RequestUrl io (data (files ! i)) = Some (content (files' ! i)) \<or>
          source (files ! i) = File \<and> ReadFile io (data (files ! i)) = Some (content (files' ! i))))"
proof -
  define files where "files = FillFromInputFiles inputs"
  have a: "map content files = map data inputs"
    by (simp add: files_def FillFromInputFiles_map content_new_ImporterFile comp_def)
  have f: "fst (GetContent io files) = map (\<lambda>f. fst (GetFileContent io f)) files"
    by (simp add: GetContent_def GetContent_from_files)
  have e: "filter isLoadEvent (snd (GetContent io files)) =
        concat (map (\<lambda>f. if content f \<noteq> Null then []
                          else if source f = Url then [UrlRequested (data f)]
                          else if source f = File then [FileRead (data f)] else []) files)"
    by (simp add: GetContent_def GetContent_from_events GetFileContent_events)
  have c: "\<forall>i < length files. content (files ! i) \<noteq> Null \<longrightarrow> fst (GetContent io files) ! i = files ! i"
    by (simp add: f GetFileContent_loaded)
  have d: "\<forall>i < length files. content (fst (GetContent io files) ! i) \<noteq> content (files ! i) \<longrightarrow>
         content (files ! i) = Null \<and>
         (source (files ! i) = Url \<and> RequestUrl io (data (files ! i)) = Some (content (fst (GetContent io files) ! i)) \<or>
          source (files ! i) = File \<and> ReadFile io (data (files ! i)) = Some (content (fst (GetContent io files) ! i)))"
    using GetFileContent_assigned by (simp add: f)
  show ?thesis
    unfolding Let_def split_def files_def[symmetric]
    using a e c d by (simp add: f)
qed

theorem C1_content_from_data_witness:
  "map content (FillFromInputFiles exampleInputs) =
     [UrlString ''http://host/models/cube.obj'', Null, FileObject 7] \<and>
   filter isLoadEvent (snd (GetContent exampleLoaders (FillFromInputFiles exampleInputs))) =
     [UrlRequested Null] \<and>
   map content (fst (GetContent exampleLoaders (FillFromInputFiles exampleInputs))) =
     [UrlString ''http://host/models/cube.obj'', ArrayBuffer ''v 0 0 0'', FileObject 7]"
proof -
  have ev: ?thesis by code_simp
  from C1_content_from_data [of exampleInputs exampleLoaders] ev show ?thesis by fast
qed

lemma foundMissingFile_iff:
  "foundMissingFile this newFileList \<longleftrightarrow>
     (\<exists>missingFile \<in> set (missingFiles this). ContainsFileByPath newFileList missingFile)"
proof -
  have "foldl (\<lambda>found missingFile. if ContainsFileByPath newFileList missingFile then True else found) b ms
          \<longleftrightarrow> b \<or> (\<exists>missingFile \<in> set ms. ContainsFileByPath newFileList missingFile)" for b ms
    by (induction ms arbitrary: b) auto
  then show ?thesis by (simp add: foundMissingFile_def)
qed

lemma NameUnique_FillFromInputFiles:
  "NameUnique (FillFromInputFiles inputs) \<longleftrightarrow>
     distinct (map (\<lambda>i. toLowerCase (GetFileName (name i))) inputs)"
  by (simp add: NameUnique_def FillFromInputFiles_map name_new_ImporterFile comp_def)

lemma NameUnique_AddFile:
  "NameUnique (AddFile f files) \<longleftrightarrow>
     NameUnique files \<and> toLowerCase (name f) \<notin> (\<lambda>g. toLowerCase (name g)) ` set files"
  by (auto simp: NameUnique_def AddFile_def)

subsection \<open>C4: names in the list\<close>

text \<open>
  C4 says that \<open>FillFromInputFiles\<close>, \<open>ExtendFromFileList\<close> and the decompression of
  archives through \<open>AddFile\<close> all keep the names of the list pairwise different,
  compared case-insensitively. Only \<open>ExtendFromFileList\<close> looks at the names. Two inputs
  \<open>cube.obj\<close> and \<open>upload/CUBE.OBJ\<close> give a list with the same name twice, and an archive
  with the entries \<open>a/wood.png\<close> and \<open>b/Wood.PNG\<close> does so too.
\<close>

theorem C4_counterexample:
  "\<not> NameUnique (FillFromInputFiles exampleDuplicateInputs) \<and>
   NameUnique exampleArchive \<and>
   map name (the (DecompressArchives exampleUnzip exampleArchive)) =
     [''textures.zip'', ''wood.png'', ''Wood.PNG''] \<and>
   \<not> NameUnique (the (DecompressArchives exampleUnzip exampleArchive))"
  by code_simp

text \<open>
  C4, as the code has it. \<open>ExtendFromFileList\<close> keeps the names pairwise different
  (for files whose names are base names, as the constructor makes them; so in
  particular when the other list comes from \<open>FillFromInputFiles\<close>). \<open>FillFromInputFiles\<close>
  and \<open>AddFile\<close> add without a test: the list \<open>FillFromInputFiles\<close> makes has pairwise
  different names exactly when the base names of the inputs are pairwise different, and
  \<open>AddFile\<close> keeps the invariant exactly when the name it adds is not yet in the list.
\<close>

theorem C4_ExtendFromFileList_keeps_names_unique:
  "(NameUnique this \<and> (\<forall>f \<in> set other. GetFileName (name f) = name f)
      \<longrightarrow> NameUnique (ExtendFromFileList this other)) \<and>
   (NameUnique this \<longrightarrow> NameUnique (ExtendFromFileList this (FillFromInputFiles inputs))) \<and>
   (NameUnique (FillFromInputFiles inputs) \<longleftrightarrow>
      distinct (map (\<lambda>i. toLowerCase (GetFileName (name i))) inputs)) \<and>
   (NameUnique (AddFile f this) \<longleftrightarrow>
      NameUnique this \<and> toLowerCase (name f) \<notin> (\<lambda>g. toLowerCase (name g)) ` set this)"
  using ExtendFromFileList_unique [of this other]
        ExtendFromFileList_unique [of this "FillFromInputFiles inputs"]
        FillFromInputFiles_normalised [of _ inputs]
        NameUnique_FillFromInputFiles [of inputs] NameUnique_AddFile [of f this]
  by blast

theorem C4_ExtendFromFileList_keeps_names_unique_witness:
  "NameUnique (FillFromInputFiles exampleInputs) \<and>
   map name (ExtendFromFileList (FillFromInputFiles exampleInputs) (FillFromInputFiles exampleDuplicateInputs))
     = [''cube.obj'', ''cube.mtl'', ''wood.png''] \<and>
   NameUnique (ExtendFromFileList (FillFromInputFiles exampleInputs) (FillFromInputFiles exampleDuplicateInputs))"
proof -
  have u: "NameUnique (FillFromInputFiles exampleInputs)" by code_simp
  have m: "map name (ExtendFromFileList (FillFromInputFiles exampleInputs) (FillFromInputFiles exampleDuplicateInputs))
     = [''cube.obj'', ''cube.mtl'', ''wood.png'']" by code_simp
  from C4_ExtendFromFileList_keeps_names_unique
         [of "FillFromInputFiles exampleInputs" "[]" exampleDuplicateInputs] u m
  show ?thesis by blast
qed

subsection \<open>C5: reconciliation in \<open>LoadFiles\<close>\<close>

text \<open>
  C5: \<open>LoadFiles\<close> builds the candidate list from the inputs. If the candidate has a
  file that some registered importer accepts, or has none of the names recorded as
  missing, the orchestrator's list becomes the candidate. Otherwise the list becomes
  the existing list, unchanged, followed by the candidate's files whose name (compared
  case-insensitively) is not present: neither in the existing list nor among the
  candidate's files before it. Then \<open>GetContent\<close> runs on that list; nothing else of the
  orchestrator changes.
\<close>

theorem C5_LoadFiles_reconciliation:
  "let candidate = FillFromInputFiles inputFiles;
       reconciled =
         (if HasImportableFile this candidate \<or>
             \<not> (\<exists>missingFile \<in> set (missingFiles this). ContainsFileByPath candidate missingFile)
          then candidate
          else fileList this @
               map (\<lambda>i. candidate ! i)
                 (filter (\<lambda>i. \<not> ContainsFileByPath (fileList this @ take i candidate) (name (candidate ! i)))
                    [0..<length candidate]))
   in fileList (LoadFiles_reconcile inputFiles this) = reconciled \<and>
      LoadFiles io inputFiles this = (this\<lparr>fileList := fst (GetContent io reconciled)\<rparr>, snd (GetContent io reconciled))"
proof -
  define candidate where "candidate = FillFromInputFiles inputFiles"
  have norm: "\<forall>f \<in> set candidate. GetFileName (name f) = name f"
    by (simp add: candidate_def FillFromInputFiles_normalised)
  show ?thesis
    unfolding Let_def candidate_def[symmetric]
    by (simp add: LoadFiles_def LoadFiles_reconcile_def Let_def split_def candidate_def[symmetric]
          foundMissingFile_iff ExtendFromFileList_exact [OF norm])
qed

theorem C5_LoadFiles_reconciliation_witness:
  "map name (fileList (LoadFiles_reconcile exampleSupplied exampleImporter)) =
     [''cube.obj'', ''cube.mtl'', ''wood.png''] \<and>
   map content (fileList (LoadFiles_reconcile exampleSupplied exampleImporter)) =
     [ArrayBuffer (''mtllib cube.mtl'' @ [CHR 0x0A] @ ''v 0 0 0''),
      ArrayBuffer (''newmtl wood'' @ [CHR 0x0A] @ ''map_Kd textures/wood.png''),
      ArrayBuffer ''PNG''] \<and>
   fileList (LoadFiles_reconcile exampleInputs exampleImporter) = FillFromInputFiles exampleInputs \<and>
   fileList (LoadFiles_reconcile exampleUnrelated exampleImporter) = FillFromInputFiles exampleUnrelated"
proof -
  have ev: ?thesis by code_simp
  from C5_LoadFiles_reconciliation [of exampleSupplied exampleImporter exampleLoaders] ev
  show ?thesis by fast
qed

section \<open>Properties of the accessor\<close>

lemma map_of_Map_set: "map_of (Map_set k v m) = (map_of m)(k \<mapsto> v)"
  by (induction m) (auto simp: fun_eq_iff)

lemma dom_Map_set: "dom (map_of (Map_set k v m)) = insert k (dom (map_of m))"
  by (simp add: map_of_Map_set)

lemma getBufferCallback_cases:
  "(\<exists>c. getBufferCallback n this = (c, this\<lparr>missingFiles := missingFiles this @ [n]\<rparr>)) \<or>
   (\<exists>c. getBufferCallback n this = (c, this\<lparr>usedFiles := usedFiles this @ [n]\<rparr>))"
  by (simp add: getBufferCallback_def split: option.splits)

lemma GetFileBuffer_cached:
  "map_of (fileBuffers acc) (GetFileName p) = Some b \<Longrightarrow> GetFileBuffer cb p (acc, w) = (b, acc, w)"
  by (simp add: GetFileBuffer_def)

lemma GetFileBuffer_caches:
  "GetFileBuffer cb p st = (b, acc', w') \<Longrightarrow> map_of (fileBuffers acc') (GetFileName p) = Some b"
  by (auto simp: GetFileBuffer_def Let_def split_def map_of_Map_set split: option.splits)

lemma GetFileBuffer_keeps:
  "GetFileBuffer cb p (acc, w) = (b, acc', w') \<Longrightarrow> map_of (fileBuffers acc) k = Some v
     \<Longrightarrow> map_of (fileBuffers acc') k = Some v"
  by (auto simp: GetFileBuffer_def Let_def split_def map_of_Map_set split: option.splits)

lemma GetFileBuffers_keeps:
  "GetFileBuffers cb ps (acc, w) = (bs, acc', w') \<Longrightarrow> map_of (fileBuffers acc) k = Some v
     \<Longrightarrow> map_of (fileBuffers acc') k = Some v"
proof (induction ps arbitrary: acc w bs)
  case Nil
  then show ?case by simp
next
  case (Cons p ps)
  obtain b acc1 w1 where s1: "GetFileBuffer cb p (acc, w) = (b, acc1, w1)"
    by (metis prod_cases3)
  obtain bs2 where s2: "GetFileBuffers cb ps (acc1, w1) = (bs2, acc', w')"
    using Cons.prems(1) s1 by (cases "GetFileBuffers cb ps (acc1, w1)") auto
  have "map_of (fileBuffers acc1) k = Some v"
    using GetFileBuffer_keeps [OF s1 Cons.prems(2)] .
  then show ?case using Cons.IH [OF s2] by simp
qed

lemma GetFileBuffer_repeat:
  assumes same: "GetFileName filePath1 = GetFileName filePath2"
    and first: "GetFileBuffer cb filePath1 st0 = (buffer1, st1)"
    and between: "GetFileBuffers cb filePaths st1 = (buffers, st2)"
  shows "GetFileBuffer cb filePath2 st2 = (buffer1, st2)"
proof -
  obtain acc1 w1 where st1: "st1 = (acc1, w1)" by (cases st1)
  obtain acc2 w2 where st2: "st2 = (acc2, w2)" by (cases st2)
  have "map_of (fileBuffers acc1) (GetFileName filePath1) = Some buffer1"
    using GetFileBuffer_caches [of cb filePath1 st0 buffer1 acc1 w1] first st1 by simp
  then have "map_of (fileBuffers acc2) (GetFileName filePath1) = Some buffer1"
    using GetFileBuffers_keeps [of cb filePaths acc1 w1 buffers acc2 w2] between st1 st2 by simp
  then show ?thesis
    using same by (simp add: st2 GetFileBuffer_cached)
qed

lemma Attributed_step:
  assumes "Attributed m K st" and "GetFileBuffer getBufferCallback p st = (b, st')"
  shows "Attributed m (insert (GetFileName p) K) st'"
proof -
  obtain acc this where st: "st = (acc, this)" by (cases st)
  from assms(1) st obtain used where
    u: "usedFiles this = m # used" "distinct (used @ missingFiles this)"
       "set (used @ missingFiles this) = K" "dom (map_of (fileBuffers acc)) = K"
    by (auto simp: Attributed_def)
  show ?thesis
  proof (cases "map_of (fileBuffers acc) (GetFileName p)")
    case (Some c)
    then have "GetFileName p \<in> K" using u(4) by auto
    moreover have "st' = st" using assms(2) Some st by (simp add: GetFileBuffer_cached)
    ultimately show ?thesis using assms(1) by (simp add: insert_absorb)
  next
    case None
    then have new: "GetFileName p \<notin> K" using u(4) by auto
    then have new': "GetFileName p \<notin> set used" "GetFileName p \<notin> set (missingFiles this)"
      using u(3) by auto
    from getBufferCallback_cases [of "GetFileName p" this]
    show ?thesis
    proof
      assume "\<exists>c. getBufferCallback (GetFileName p) this
                 = (c, this\<lparr>missingFiles := missingFiles this @ [GetFileName p]\<rparr>)"
      then obtain c where c: "getBufferCallback (GetFileName p) this
                 = (c, this\<lparr>missingFiles := missingFiles this @ [GetFileName p]\<rparr>)" ..
      have "st' = (acc\<lparr>fileBuffers := Map_set (GetFileName p) c (fileBuffers acc)\<rparr>,
                   this\<lparr>missingFiles := missingFiles this @ [GetFileName p]\<rparr>)"
        using assms(2) None st c by (auto simp: GetFileBuffer_def Let_def)
      then show ?thesis
        using u new' by (auto simp: Attributed_def dom_Map_set)
    next
      assume "\<exists>c. getBufferCallback (GetFileName p) this
                 = (c, this\<lparr>usedFiles := usedFiles this @ [GetFileName p]\<rparr>)"
      then obtain c where c: "getBufferCallback (GetFileName p) this
                 = (c, this\<lparr>usedFiles := usedFiles this @ [GetFileName p]\<rparr>)" ..
      have "st' = (acc\<lparr>fileBuffers := Map_set (GetFileName p) c (fileBuffers acc)\<rparr>,
                   this\<lparr>usedFiles := usedFiles this @ [GetFileName p]\<rparr>)"
        using assms(2) None st c by (auto simp: GetFileBuffer_def Let_def)
      then show ?thesis
        using u new' by (auto simp: Attributed_def dom_Map_set)
    qed
  qed
qed

lemma Attributed_steps:
  "Attributed m K st \<Longrightarrow> GetFileBuffers getBufferCallback ps st = (bs, st')
     \<Longrightarrow> Attributed m (K \<union> GetFileName ` set ps) st'"
proof (induction ps arbitrary: K st bs)
  case Nil
  then show ?case by simp
next
  case (Cons p ps)
  obtain b st1 where s1: "GetFileBuffer getBufferCallback p st = (b, st1)"
    by (cases "GetFileBuffer getBufferCallback p st")
  obtain bs2 where s2: "GetFileBuffers getBufferCallback ps st1 = (bs2, st')"
    using Cons.prems(2) s1 by (cases "GetFileBuffers getBufferCallback ps st1") auto
  have "Attributed m (insert (GetFileName p) K \<union> GetFileName ` set ps) st'"
    using Cons.IH [OF Attributed_step [OF Cons.prems(1) s1] s2] .
  then show ?case by simp
qed

lemma Attributed_begin: "Attributed (name mainFile) {} (ImportLoadedMainFile_begin mainFile this)"
  by (simp add: Attributed_def ImportLoadedMainFile_begin_def new_ImporterFileAccessor_def)

subsection \<open>C10: one lookup per name\<close>

text \<open>
  C10: when two paths have the same base name, the later \<open>GetFileBuffer\<close> returns the
  buffer (or \<open>null\<close>) that the earlier one returned and changes nothing, neither the cache
  nor the state behind the callback, whatever was requested in between: the callback is
  not called again. Consequently, after any sequence of requests in one import, the
  used-files list is the main file followed by names that, together with the names of
  the missing-files list, are pairwise different and are the base names requested.
\<close>

theorem C10_GetFileBuffer_idempotent:
  "(GetFileName filePath1 = GetFileName filePath2 \<longrightarrow>
      (let (buffer1, st1) = GetFileBuffer cb filePath1 st0;
           (buffers, st2) = GetFileBuffers cb filePaths st1
       in GetFileBuffer cb filePath2 st2 = (buffer1, st2))) \<and>
   (let (buffers, accessor, this') =
          GetFileBuffers getBufferCallback requests (ImportLoadedMainFile_begin mainFile this)
    in usedFiles this' = name mainFile # tl (usedFiles this') \<and>
       distinct (tl (usedFiles this') @ missingFiles this') \<and>
       set (tl (usedFiles this') @ missingFiles this') = GetFileName ` set requests)"
proof -
  obtain buffer1 st1 where first: "GetFileBuffer cb filePath1 st0 = (buffer1, st1)"
    by (cases "GetFileBuffer cb filePath1 st0")
  obtain bufs st2 where between: "GetFileBuffers cb filePaths st1 = (bufs, st2)"
    by (cases "GetFileBuffers cb filePaths st1")
  have one: "GetFileName filePath1 = GetFileName filePath2 \<longrightarrow>
      (let (buffer1, st1) = GetFileBuffer cb filePath1 st0;
           (buffers, st2) = GetFileBuffers cb filePaths st1
       in GetFileBuffer cb filePath2 st2 = (buffer1, st2))"
    using GetFileBuffer_repeat [OF _ first between, of filePath2]
    by (simp add: first between)
  obtain buffers accessor this' where
    r: "GetFileBuffers getBufferCallback requests (ImportLoadedMainFile_begin mainFile this)
          = (buffers, accessor, this')"
    by (metis prod_cases3)
  have "Attributed (name mainFile) ({} \<union> GetFileName ` set requests) (accessor, this')"
    using Attributed_steps [OF Attributed_begin r] .
  then have two: "usedFiles this' = name mainFile # tl (usedFiles this') \<and>
       distinct (tl (usedFiles this') @ missingFiles this') \<and>
       set (tl (usedFiles this') @ missingFiles this') = GetFileName ` set requests"
    by (auto simp: Attributed_def)
  show ?thesis using one two by (simp add: r)
qed

theorem C10_GetFileBuffer_idempotent_witness:
  "GetFileName ''textures/wood.png'' = GetFileName ''wood.png'' \<and>
   fst (GetFileBuffers getBufferCallback
          [''textures/wood.png'', ''cube.mtl'', ''wood.png'', ''lib/cube.mtl'']
          (ImportLoadedMainFile_begin (fileList exampleImporter ! 0) exampleImporter)) =
     [Null, ArrayBuffer (''newmtl wood'' @ [CHR 0x0A] @ ''map_Kd textures/wood.png''), Null,
      ArrayBuffer (''newmtl wood'' @ [CHR 0x0A] @ ''map_Kd textures/wood.png'')] \<and>
   usedFiles (snd (snd (GetFileBuffers getBufferCallback
          [''textures/wood.png'', ''cube.mtl'', ''wood.png'', ''lib/cube.mtl'']
          (ImportLoadedMainFile_begin (fileList exampleImporter ! 0) exampleImporter)))) =
     [''cube.obj'', ''cube.mtl''] \<and>
   missingFiles (snd (snd (GetFileBuffers getBufferCallback
          [''textures/wood.png'', ''cube.mtl'', ''wood.png'', ''lib/cube.mtl'']
          (ImportLoadedMainFile_begin (fileList exampleImporter ! 0) exampleImporter)))) =
     [''wood.png'']"
proof -
  have ev: ?thesis by code_simp
  from C10_GetFileBuffer_idempotent
         [of "''textures/wood.png''" "''wood.png''" getBufferCallback
             "ImportLoadedMainFile_begin (fileList exampleImporter ! 0) exampleImporter"
             "[''cube.mtl'']"
             "[''textures/wood.png'', ''cube.mtl'', ''wood.png'', ''lib/cube.mtl'']"
             "fileList exampleImporter ! 0" exampleImporter] ev
  show ?thesis by fast
qed

section \<open>Properties of the mesh converter\<close>

lemma Coord3D_copy: "(case val of Coord3D x y z \<Rightarrow> Coord3D x y z) = val"
  by (cases val) simp

lemma Coord2D_copy: "(case val of Coord2D x y \<Rightarrow> Coord2D x y) = val"
  by (cases val) simp

lemma RGBColor_copy: "(case val of RGBColorFromFloatComponents r g b \<Rightarrow> RGBColorFromFloatComponents r g b) = val"
  by (cases val) simp

lemma AddVertex_eq:
  "AddVertex g gs this =
     (if InRange g (length gs) then
        (case map_of (globalToMeshVertices this) (globalOf g) of
           Some l \<Rightarrow> (Some l, this)
         | None \<Rightarrow>
             (Some (length (mesh_vertices (mesh this))),
              this\<lparr>mesh := (mesh this)\<lparr>mesh_vertices := mesh_vertices (mesh this) @ [gs ! globalOf g]\<rparr>,
                   globalToMeshVertices :=
                     Map_set (globalOf g) (length (mesh_vertices (mesh this))) (globalToMeshVertices this)\<rparr>))
      else (None, this))"
  by (cases g)
     (auto simp: AddVertex_def GetMeshIndex_def Mesh_AddVertex_def Let_def Coord3D_copy
           split: option.splits)

lemma AddVertexColor_eq:
  "AddVertexColor g gs this =
     (if InRange g (length gs) then
        (case map_of (globalToMeshVertexColors this) (globalOf g) of
           Some l \<Rightarrow> (Some l, this)
         | None \<Rightarrow>
             (Some (length (mesh_vertexColors (mesh this))),
              this\<lparr>mesh := (mesh this)\<lparr>mesh_vertexColors := mesh_vertexColors (mesh this) @ [gs ! globalOf g]\<rparr>,
                   globalToMeshVertexColors :=
                     Map_set (globalOf g) (length (mesh_vertexColors (mesh this))) (globalToMeshVertexColors this)\<rparr>))
      else (None, this))"
  by (cases g)
     (auto simp: AddVertexColor_def GetMeshIndex_def Mesh_AddVertexColor_def Let_def RGBColor_copy
           split: option.splits)

lemma AddNormal_eq:
  "AddNormal g gs this =
     (if InRange g (length gs) then
        (case map_of (globalToMeshNormals this) (globalOf g) of
           Some l \<Rightarrow> (Some l, this)
         | None \<Rightarrow>
             (Some (length (mesh_normals (mesh this))),
              this\<lparr>mesh := (mesh this)\<lparr>mesh_normals := mesh_normals (mesh this) @ [gs ! globalOf g]\<rparr>,
                   globalToMeshNormals :=
                     Map_set (globalOf g) (length (mesh_normals (mesh this))) (globalToMeshNormals this)\<rparr>))
      else (None, this))"
  by (cases g)
     (auto simp: AddNormal_def GetMeshIndex_def Mesh_AddNormal_def Let_def Coord3D_copy
           split: option.splits)

lemma AddUV_eq:
  "AddUV g gs this =
     (if InRange g (length gs) then
        (case map_of (globalToMeshUvs this) (globalOf g) of
           Some l \<Rightarrow> (Some l, this)
         | None \<Rightarrow>
             (Some (length (mesh_uvs (mesh this))),
              this\<lparr>mesh := (mesh this)\<lparr>mesh_uvs := mesh_uvs (mesh this) @ [gs ! globalOf g]\<rparr>,
                   globalToMeshUvs :=
                     Map_set (globalOf g) (length (mesh_uvs (mesh this))) (globalToMeshUvs this)\<rparr>))
      else (None, this))"
  by (cases g)
     (auto simp: AddUV_def GetMeshIndex_def Mesh_AddTextureUV_def Let_def Coord2D_copy
           split: option.splits)

lemmas Add_eqs = AddVertex_eq AddVertexColor_eq AddNormal_eq AddUV_eq

lemma map_of_Map_set_keeps:
  "map_of m k = Some v \<Longrightarrow> map_of m k' = None \<Longrightarrow> map_of (Map_set k' v' m) k = Some v"
  by (auto simp: map_of_Map_set)

lemma converterCall_keeps:
  "map_of (globalToMeshVertices this) k = Some v
     \<Longrightarrow> map_of (globalToMeshVertices (converterCall c this)) k = Some v"
  "map_of (globalToMeshVertexColors this) k = Some v
     \<Longrightarrow> map_of (globalToMeshVertexColors (converterCall c this)) k = Some v"
  "map_of (globalToMeshNormals this) k = Some v
     \<Longrightarrow> map_of (globalToMeshNormals (converterCall c this)) k = Some v"
  "map_of (globalToMeshUvs this) k = Some v
     \<Longrightarrow> map_of (globalToMeshUvs (converterCall c this)) k = Some v"
  by (cases c; auto simp: Add_eqs AddLine_def AddTriangle_def map_of_Map_set split: option.splits)+

lemma converterCalls_keeps:
  "map_of (globalToMeshVertices this) k = Some v
     \<Longrightarrow> map_of (globalToMeshVertices (converterCalls cs this)) k = Some v"
  "map_of (globalToMeshVertexColors this) k = Some v
     \<Longrightarrow> map_of (globalToMeshVertexColors (converterCalls cs this)) k = Some v"
  "map_of (globalToMeshNormals this) k = Some v
     \<Longrightarrow> map_of (globalToMeshNormals (converterCalls cs this)) k = Some v"
  "map_of (globalToMeshUvs this) k = Some v
     \<Longrightarrow> map_of (globalToMeshUvs (converterCalls cs this)) k = Some v"
  unfolding converterCalls_def
  by (induction cs arbitrary: this; simp add: converterCall_keeps)+

lemma Dedup_generic:
  fixes add :: "jsnum \<Rightarrow> 'v list \<Rightarrow> ObjMeshConverter \<Rightarrow> nat option \<times> ObjMeshConverter"
  assumes eq: "\<And>g gs this. add g gs this =
     (if InRange g (length gs) then
        (case map_of (indices this) (globalOf g) of
           Some l \<Rightarrow> (Some l, this)
         | None \<Rightarrow> (Some (length (buffer (mesh this))), upd g gs this))
      else (None, this))"
    and upd_map: "\<And>g gs this. map_of (indices (upd g gs this)) (globalOf g) = Some (length (buffer (mesh this)))"
    and upd_buffer: "\<And>g gs this. buffer (mesh (upd g gs this)) = buffer (mesh this) @ [gs ! globalOf g]"
    and keeps: "\<And>cs this k v. map_of (indices this) k = Some v
                  \<Longrightarrow> map_of (indices (converterCalls cs this)) k = Some v"
  shows "DeduplicatesReferences add indices buffer"
  unfolding DeduplicatesReferences_def
proof (intro allI impI)
  fix g and gs gs' :: "'v list" and this calls
  assume r: "InRange g (length gs) \<and> InRange g (length gs')"
  obtain r1 this1 where a1: "add g gs this = (r1, this1)" by (cases "add g gs this")
  have m1: "map_of (indices this1) (globalOf g) = r1" and s1: "r1 \<noteq> None"
    using a1 r by (cases "map_of (indices this) (globalOf g)"; auto simp: eq upd_map)+
  then obtain l where l: "r1 = Some l" by auto
  have m2: "map_of (indices (converterCalls calls this1)) (globalOf g) = Some l"
    using keeps m1 l by simp
  have a2: "add g gs' (converterCalls calls this1) = (r1, converterCalls calls this1)"
    using r m2 l by (simp add: eq)
  have first: "map_of (indices this) (globalOf g) = None \<longrightarrow>
               r1 = Some (length (buffer (mesh this))) \<and>
               buffer (mesh this1) = buffer (mesh this) @ [gs ! globalOf g]"
    using a1 r by (auto simp: eq upd_buffer)
  have again: "map_of (indices this) (globalOf g) \<noteq> None \<longrightarrow>
               r1 = map_of (indices this) (globalOf g) \<and> this1 = this"
    using a1 r by (auto simp: eq)
  show "let (r1, this1) = add g gs this;
             this2 = converterCalls calls this1;
             (r2, this3) = add g gs' this2
         in r1 \<noteq> None \<and>
            (map_of (indices this) (globalOf g) = None \<longrightarrow>
               r1 = Some (length (buffer (mesh this))) \<and>
               buffer (mesh this1) = buffer (mesh this) @ [gs ! globalOf g]) \<and>
            (map_of (indices this) (globalOf g) \<noteq> None \<longrightarrow>
               r1 = map_of (indices this) (globalOf g) \<and> this1 = this) \<and>
            map_of (indices this1) (globalOf g) = r1 \<and>
            r2 = r1 \<and> this3 = this2"
    using s1 first again m1 by (simp add: a1 a2 Let_def)
qed

subsection \<open>C9: one mesh-local index for each global index\<close>

text \<open>
  C9: within one mesh converter, for each of the four attribute kinds (vertices, vertex
  colors, normals, UVs), a global index that is in range gets one mesh-local index. The
  first reference creates the mapping and copies the value at the global index to the
  end of the mesh's buffer of that kind (or returns the mapping that exists and changes
  nothing); every later reference to the same global index, after any other calls on the
  converter, returns the same mesh-local index and changes neither the buffers nor the
  maps.
\<close>

theorem C9_mesh_local_index_stable:
  "DeduplicatesReferences AddVertex globalToMeshVertices mesh_vertices \<and>
   DeduplicatesReferences AddVertexColor globalToMeshVertexColors mesh_vertexColors \<and>
   DeduplicatesReferences AddNormal globalToMeshNormals mesh_normals \<and>
   DeduplicatesReferences AddUV globalToMeshUvs mesh_uvs"
proof (intro conjI)
  show "DeduplicatesReferences AddVertex globalToMeshVertices mesh_vertices"
    by (rule Dedup_generic [OF AddVertex_eq]) (simp_all add: map_of_Map_set converterCalls_keeps)
  show "DeduplicatesReferences AddVertexColor globalToMeshVertexColors mesh_vertexColors"
    by (rule Dedup_generic [OF AddVertexColor_eq]) (simp_all add: map_of_Map_set converterCalls_keeps)
  show "DeduplicatesReferences AddNormal globalToMeshNormals mesh_normals"
    by (rule Dedup_generic [OF AddNormal_eq]) (simp_all add: map_of_Map_set converterCalls_keeps)
  show "DeduplicatesReferences AddUV globalToMeshUvs mesh_uvs"
    by (rule Dedup_generic [OF AddUV_eq]) (simp_all add: map_of_Map_set converterCalls_keeps)
qed

text \<open>
  C9 on an example: global vertex \<open>2\<close> of three is referenced first in a new mesh and gets
  index \<open>0\<close>; after a reference to vertex \<open>0\<close>, a triangle, a second reference to vertex
  \<open>2\<close> and a normal, it still has index \<open>0\<close>, and the mesh has two vertices.
\<close>

theorem C9_mesh_local_index_stable_witness:
  "InRange (Num 2) (length exampleGlobals) \<and>
   fst (AddVertex (Num 2) exampleGlobals (new_ObjMeshConverter new_Mesh)) = Some 0 \<and>
   AddVertex (Num 2) exampleGlobals
     (converterCalls exampleCalls (snd (AddVertex (Num 2) exampleGlobals (new_ObjMeshConverter new_Mesh))))
   = (Some 0,
      converterCalls exampleCalls (snd (AddVertex (Num 2) exampleGlobals (new_ObjMeshConverter new_Mesh)))) \<and>
   mesh_vertices (mesh
      (converterCalls exampleCalls (snd (AddVertex (Num 2) exampleGlobals (new_ObjMeshConverter new_Mesh)))))
   = [exampleGlobals ! 2, exampleGlobals ! 0]"
proof -
  have r: "InRange (Num 2) (length exampleGlobals) \<and> InRange (Num 2) (length exampleGlobals)"
    by code_simp
  have d: "DeduplicatesReferences AddVertex globalToMeshVertices mesh_vertices"
    using C9_mesh_local_index_stable by blast
  have f: "fst (AddVertex (Num 2) exampleGlobals (new_ObjMeshConverter new_Mesh)) = Some 0"
    by code_simp
  have s: "AddVertex (Num 2) exampleGlobals
     (converterCalls exampleCalls (snd (AddVertex (Num 2) exampleGlobals (new_ObjMeshConverter new_Mesh))))
   = (Some 0,
      converterCalls exampleCalls (snd (AddVertex (Num 2) exampleGlobals (new_ObjMeshConverter new_Mesh))))"
    using d [unfolded DeduplicatesReferences_def, rule_format, OF r,
             of "new_ObjMeshConverter new_Mesh" exampleCalls] f
    by (simp add: split_def Let_def prod_eq_iff)
  have m: "mesh_vertices (mesh
      (converterCalls exampleCalls (snd (AddVertex (Num 2) exampleGlobals (new_ObjMeshConverter new_Mesh)))))
   = [exampleGlobals ! 2, exampleGlobals ! 0]" by code_simp
  show ?thesis using r f s m by blast
qed

section \<open>Properties of the OBJ parser\<close>

subsection \<open>Tokens of the example lines\<close>

lemma AddNewMesh_globals:
  "globalVertices (AddNewMesh n this) = globalVertices this"
  "globalVertexColors (AddNewMesh n this) = globalVertexColors this"
  "globalNormals (AddNewMesh n this) = globalNormals this"
  "globalUvs (AddNewMesh n this) = globalUvs this"
  "currentMaterialIndex (AddNewMesh n this) = currentMaterialIndex this"
  "error (AddNewMesh n this) = error this"
  by (simp_all add: AddNewMesh_def Let_def split: option.splits)








subsection \<open>C7: resolution of index references\<close>



subsection \<open>The attribute stages of the face loop\<close>

lemma MapExt_refl: "MapExt c c" by (simp add: MapExt_def)

lemma MapExt_trans: "MapExt a b \<Longrightarrow> MapExt b c \<Longrightarrow> MapExt a c" by (simp add: MapExt_def)

lemma Extends_refl: "Extends c c" by (simp add: Extends_def MapExt_refl)

lemma Extends_trans: "Extends a b \<Longrightarrow> Extends b c \<Longrightarrow> Extends a c"
  by (auto simp: Extends_def intro: MapExt_trans)

lemma Extends_MapExt: "Extends a b \<Longrightarrow> MapExt a b" by (simp add: Extends_def)

lemma Add_Extends:
  "Extends c (snd (AddVertex g gs c))"
  "Extends c (snd (AddVertexColor g cs c))"
  "Extends c (snd (AddNormal g ns c))"
  "Extends c (snd (AddUV g us c))"
  by (auto simp: Extends_def MapExt_def Add_eqs map_of_Map_set split: option.splits)

lemma Add_None:
  "fst (AddVertex g gs c) = None \<longleftrightarrow> \<not> InRange g (length gs)"
  "fst (AddVertexColor g cs c) = None \<longleftrightarrow> \<not> InRange g (length cs)"
  "fst (AddNormal g ns c) = None \<longleftrightarrow> \<not> InRange g (length ns)"
  "fst (AddUV g us c) = None \<longleftrightarrow> \<not> InRange g (length us)"
  by (simp_all add: Add_eqs split: option.splits)

lemma AddVertex_map:
  "InRange g (length gs) \<Longrightarrow>
     map_of (globalToMeshVertices (snd (AddVertex g gs c))) (globalOf g) = fst (AddVertex g gs c)"
  by (simp add: AddVertex_eq map_of_Map_set split: option.splits)

lemma AddVertex_result:
  assumes "AddVertex g gs c = (r, c')"
  shows "Extends c c' \<and> (r = None \<longleftrightarrow> \<not> InRange g (length gs)) \<and>
     (InRange g (length gs) \<longrightarrow> map_of (globalToMeshVertices c') (globalOf g) = r)"
proof -
  have "r = fst (AddVertex g gs c)" "c' = snd (AddVertex g gs c)" using assms by simp_all
  then show ?thesis using Add_Extends(1) Add_None(1) AddVertex_map by metis
qed

lemma AddVertexColor_result:
  assumes "AddVertexColor g cs c = (r, c')"
  shows "Extends c c' \<and> (r = None \<longleftrightarrow> \<not> InRange g (length cs))"
proof -
  have "r = fst (AddVertexColor g cs c)" "c' = snd (AddVertexColor g cs c)" using assms by simp_all
  then show ?thesis using Add_Extends(2) Add_None(2) by metis
qed

lemma AddNormal_result:
  assumes "AddNormal g ns c = (r, c')"
  shows "Extends c c' \<and> (r = None \<longleftrightarrow> \<not> InRange g (length ns))"
proof -
  have "r = fst (AddNormal g ns c)" "c' = snd (AddNormal g ns c)" using assms by simp_all
  then show ?thesis using Add_Extends(3) Add_None(3) by metis
qed

lemma AddUV_result:
  assumes "AddUV g us c = (r, c')"
  shows "Extends c c' \<and> (r = None \<longleftrightarrow> \<not> InRange g (length us))"
proof -
  have "r = fst (AddUV g us c)" "c' = snd (AddUV g us c)" using assms by simp_all
  then show ?thesis using Add_Extends(4) Add_None(4) by metis
qed

lemma FanTriangle_mono: "FanTriangle c vs j t \<Longrightarrow> MapExt c c' \<Longrightarrow> FanTriangle c' vs j t"
  by (simp add: FanTriangle_def MapExt_def)

lemma FaceVertices_result:
  assumes "FaceVertices this vs i c = (r, c')"
  shows "Extends c c'"
    and "(\<exists>t. r = Inr t) \<longleftrightarrow>
           InRange (vs ! 0) (length (globalVertices this)) \<and>
           InRange (vs ! (i + 1)) (length (globalVertices this)) \<and>
           InRange (vs ! (i + 2)) (length (globalVertices this))"
    and "r = Inr t \<Longrightarrow> FanTriangle c' vs i t \<and> tri_colors t = None \<and> tri_normals t = None \<and>
                          tri_uvs t = None \<and> tri_mat t = None"
proof -
  obtain v0 c1 where a0: "AddVertex (vs ! 0) (globalVertices this) c = (v0, c1)"
    by (cases "AddVertex (vs ! 0) (globalVertices this) c")
  obtain v1 c2 where a1: "AddVertex (vs ! (i + 1)) (globalVertices this) c1 = (v1, c2)"
    by (cases "AddVertex (vs ! (i + 1)) (globalVertices this) c1")
  obtain v2 c3 where a2: "AddVertex (vs ! (i + 2)) (globalVertices this) c2 = (v2, c3)"
    by (cases "AddVertex (vs ! (i + 2)) (globalVertices this) c2")
  note r0 = AddVertex_result [OF a0] and r1 = AddVertex_result [OF a1] and r2 = AddVertex_result [OF a2]
  have c': "c' = c3" and r: "r = (case (v0, v1, v2) of
           (Some a, Some b, Some c) \<Rightarrow> Inr (new_Triangle a b c)
         | _ \<Rightarrow> Inl ''Invalid vertex index.'')"
    using assms a0 a1 a2 by (auto simp: FaceVertices_def split: option.splits)
  show "Extends c c'" using r0 r1 r2 c' by (blast intro: Extends_trans)
  show "(\<exists>t. r = Inr t) \<longleftrightarrow>
           InRange (vs ! 0) (length (globalVertices this)) \<and>
           InRange (vs ! (i + 1)) (length (globalVertices this)) \<and>
           InRange (vs ! (i + 2)) (length (globalVertices this))"
    using r0 r1 r2 by (auto simp: r split: option.splits)
  show "FanTriangle c' vs i t \<and> tri_colors t = None \<and> tri_normals t = None \<and>
                          tri_uvs t = None \<and> tri_mat t = None" if "r = Inr t"
  proof -
    from that r obtain a b d where s: "v0 = Some a" "v1 = Some b" "v2 = Some d" "t = new_Triangle a b d"
      by (auto split: option.splits)
    have m0: "map_of (globalToMeshVertices c1) (globalOf (vs ! 0)) = Some a"
      using r0 s by auto
    have m1: "map_of (globalToMeshVertices c2) (globalOf (vs ! (i + 1))) = Some b"
      using r1 s by auto
    have m2: "map_of (globalToMeshVertices c3) (globalOf (vs ! (i + 2))) = Some d"
      using r2 s by auto
    have "MapExt c1 c3" "MapExt c2 c3"
      using r1 r2 by (auto intro: MapExt_trans Extends_MapExt)
    then show ?thesis
      using m0 m1 m2 by (simp add: FanTriangle_def MapExt_def s new_Triangle_def c')
  qed
qed

lemma FaceColors_result:
  assumes "FaceColors this vs cs i t c = (r, c')"
  shows "Extends c c'"
    and "r = Inr t' \<Longrightarrow> tri_v0 t' = tri_v0 t \<and> tri_v1 t' = tri_v1 t \<and> tri_v2 t' = tri_v2 t \<and>
           tri_normals t' = tri_normals t \<and> tri_uvs t' = tri_uvs t \<and> tri_mat t' = tri_mat t \<and>
           (if length cs = length vs then tri_colors t' \<noteq> None else tri_colors t' = tri_colors t)"
    and "(\<exists>t'. r = Inr t') \<longleftrightarrow>
           (length cs = length vs \<longrightarrow>
              InRange (cs ! 0) (length (globalVertexColors this)) \<and>
              InRange (cs ! (i + 1)) (length (globalVertexColors this)) \<and>
              InRange (cs ! (i + 2)) (length (globalVertexColors this)))"
proof -
  obtain v0 c1 where a0: "AddVertexColor (cs ! 0) (globalVertexColors this) c = (v0, c1)"
    by (cases "AddVertexColor (cs ! 0) (globalVertexColors this) c")
  obtain v1 c2 where a1: "AddVertexColor (cs ! (i + 1)) (globalVertexColors this) c1 = (v1, c2)"
    by (cases "AddVertexColor (cs ! (i + 1)) (globalVertexColors this) c1")
  obtain v2 c3 where a2: "AddVertexColor (cs ! (i + 2)) (globalVertexColors this) c2 = (v2, c3)"
    by (cases "AddVertexColor (cs ! (i + 2)) (globalVertexColors this) c2")
  note r0 = AddVertexColor_result [OF a0] and r1 = AddVertexColor_result [OF a1]
    and r2 = AddVertexColor_result [OF a2]
  have e: "Extends c c3" using r0 r1 r2 by (blast intro: Extends_trans)
  have r: "(r, c') = (if length cs = length vs then
              (case (v0, v1, v2) of
                 (Some a, Some b, Some d) \<Rightarrow> (Inr (t\<lparr>tri_colors := Some (a, b, d)\<rparr>), c3)
               | _ \<Rightarrow> (Inl ''Invalid vertex color index.'', c3))
            else (Inr t, c))"
    using assms a0 a1 a2 by (auto simp: FaceColors_def split: if_splits option.splits)
  show "Extends c c'" using r e by (auto simp: Extends_refl split: if_splits option.splits)
  show "tri_v0 t' = tri_v0 t \<and> tri_v1 t' = tri_v1 t \<and> tri_v2 t' = tri_v2 t \<and>
           tri_normals t' = tri_normals t \<and> tri_uvs t' = tri_uvs t \<and> tri_mat t' = tri_mat t \<and>
           (if length cs = length vs then tri_colors t' \<noteq> None else tri_colors t' = tri_colors t)"
    if "r = Inr t'"
    using r that by (auto split: if_splits option.splits)
  show "(\<exists>t'. r = Inr t') \<longleftrightarrow>
           (length cs = length vs \<longrightarrow>
              InRange (cs ! 0) (length (globalVertexColors this)) \<and>
              InRange (cs ! (i + 1)) (length (globalVertexColors this)) \<and>
              InRange (cs ! (i + 2)) (length (globalVertexColors this)))"
    using r r0 r1 r2 by (auto split: if_splits option.splits)
qed

lemma FaceNormals_result:
  assumes "FaceNormals this vs ns i t c = (r, c')"
  shows "Extends c c'"
    and "r = Inr t' \<Longrightarrow> tri_v0 t' = tri_v0 t \<and> tri_v1 t' = tri_v1 t \<and> tri_v2 t' = tri_v2 t \<and>
           tri_colors t' = tri_colors t \<and> tri_uvs t' = tri_uvs t \<and> tri_mat t' = tri_mat t \<and>
           (if length ns = length vs then tri_normals t' \<noteq> None else tri_normals t' = tri_normals t)"
    and "(\<exists>t'. r = Inr t') \<longleftrightarrow>
           (length ns = length vs \<longrightarrow>
              InRange (ns ! 0) (length (globalNormals this)) \<and>
              InRange (ns ! (i + 1)) (length (globalNormals this)) \<and>
              InRange (ns ! (i + 2)) (length (globalNormals this)))"
proof -
  obtain v0 c1 where a0: "AddNormal (ns ! 0) (globalNormals this) c = (v0, c1)"
    by (cases "AddNormal (ns ! 0) (globalNormals this) c")
  obtain v1 c2 where a1: "AddNormal (ns ! (i + 1)) (globalNormals this) c1 = (v1, c2)"
    by (cases "AddNormal (ns ! (i + 1)) (globalNormals this) c1")
  obtain v2 c3 where a2: "AddNormal (ns ! (i + 2)) (globalNormals this) c2 = (v2, c3)"
    by (cases "AddNormal (ns ! (i + 2)) (globalNormals this) c2")
  note r0 = AddNormal_result [OF a0] and r1 = AddNormal_result [OF a1]
    and r2 = AddNormal_result [OF a2]
  have e: "Extends c c3" using r0 r1 r2 by (blast intro: Extends_trans)
  have r: "(r, c') = (if length ns = length vs then
              (case (v0, v1, v2) of
                 (Some a, Some b, Some d) \<Rightarrow> (Inr (t\<lparr>tri_normals := Some (a, b, d)\<rparr>), c3)
               | _ \<Rightarrow> (Inl ''Invalid normal index.'', c3))
            else (Inr t, c))"
    using assms a0 a1 a2 by (auto simp: FaceNormals_def split: if_splits option.splits)
  show "Extends c c'" using r e by (auto simp: Extends_refl split: if_splits option.splits)
  show "tri_v0 t' = tri_v0 t \<and> tri_v1 t' = tri_v1 t \<and> tri_v2 t' = tri_v2 t \<and>
           tri_colors t' = tri_colors t \<and> tri_uvs t' = tri_uvs t \<and> tri_mat t' = tri_mat t \<and>
           (if length ns = length vs then tri_normals t' \<noteq> None else tri_normals t' = tri_normals t)"
    if "r = Inr t'"
    using r that by (auto split: if_splits option.splits)
  show "(\<exists>t'. r = Inr t') \<longleftrightarrow>
           (length ns = length vs \<longrightarrow>
              InRange (ns ! 0) (length (globalNormals this)) \<and>
              InRange (ns ! (i + 1)) (length (globalNormals this)) \<and>
              InRange (ns ! (i + 2)) (length (globalNormals this)))"
    using r r0 r1 r2 by (auto split: if_splits option.splits)
qed

lemma FaceUVs_result:
  assumes "FaceUVs this vs us i t c = (r, c')"
  shows "Extends c c'"
    and "r = Inr t' \<Longrightarrow> tri_v0 t' = tri_v0 t \<and> tri_v1 t' = tri_v1 t \<and> tri_v2 t' = tri_v2 t \<and>
           tri_colors t' = tri_colors t \<and> tri_normals t' = tri_normals t \<and> tri_mat t' = tri_mat t \<and>
           (if length us = length vs then tri_uvs t' \<noteq> None else tri_uvs t' = tri_uvs t)"
    and "(\<exists>t'. r = Inr t') \<longleftrightarrow>
           (length us = length vs \<longrightarrow>
              InRange (us ! 0) (length (globalUvs this)) \<and>
              InRange (us ! (i + 1)) (length (globalUvs this)) \<and>
              InRange (us ! (i + 2)) (length (globalUvs this)))"
proof -
  obtain v0 c1 where a0: "AddUV (us ! 0) (globalUvs this) c = (v0, c1)"
    by (cases "AddUV (us ! 0) (globalUvs this) c")
  obtain v1 c2 where a1: "AddUV (us ! (i + 1)) (globalUvs this) c1 = (v1, c2)"
    by (cases "AddUV (us ! (i + 1)) (globalUvs this) c1")
  obtain v2 c3 where a2: "AddUV (us ! (i + 2)) (globalUvs this) c2 = (v2, c3)"
    by (cases "AddUV (us ! (i + 2)) (globalUvs this) c2")
  note r0 = AddUV_result [OF a0] and r1 = AddUV_result [OF a1]
    and r2 = AddUV_result [OF a2]
  have e: "Extends c c3" using r0 r1 r2 by (blast intro: Extends_trans)
  have r: "(r, c') = (if length us = length vs then
              (case (v0, v1, v2) of
                 (Some a, Some b, Some d) \<Rightarrow> (Inr (t\<lparr>tri_uvs := Some (a, b, d)\<rparr>), c3)
               | _ \<Rightarrow> (Inl ''Invalid uv index.'', c3))
            else (Inr t, c))"
    using assms a0 a1 a2 by (auto simp: FaceUVs_def split: if_splits option.splits)
  show "Extends c c'" using r e by (auto simp: Extends_refl split: if_splits option.splits)
  show "tri_v0 t' = tri_v0 t \<and> tri_v1 t' = tri_v1 t \<and> tri_v2 t' = tri_v2 t \<and>
           tri_colors t' = tri_colors t \<and> tri_normals t' = tri_normals t \<and> tri_mat t' = tri_mat t \<and>
           (if length us = length vs then tri_uvs t' \<noteq> None else tri_uvs t' = tri_uvs t)"
    if "r = Inr t'"
    using r that by (auto split: if_splits option.splits)
  show "(\<exists>t'. r = Inr t') \<longleftrightarrow>
           (length us = length vs \<longrightarrow>
              InRange (us ! 0) (length (globalUvs this)) \<and>
              InRange (us ! (i + 1)) (length (globalUvs this)) \<and>
              InRange (us ! (i + 2)) (length (globalUvs this)))"
    using r r0 r1 r2 by (auto split: if_splits option.splits)
qed

lemma FaceStep_result:
  assumes "FaceStep this refs i c = (r, c')"
  shows "Extends c c'"
    and "r = Inr t \<Longrightarrow> FanTriangle c' (fst refs) i t \<and> Attached refs t \<and>
                          tri_mat t = currentMaterialIndex this"
    and "(\<exists>t. r = Inr t) \<longleftrightarrow> StepInRange this refs i"
proof -
  obtain vs cs ns us where refs: "refs = (vs, cs, ns, us)" by (cases refs)
  obtain r1 c1 where s1: "FaceVertices this vs i c = (r1, c1)" by (cases "FaceVertices this vs i c")
  note v = FaceVertices_result [OF s1]
  show "Extends c c'" "r = Inr t \<Longrightarrow> FanTriangle c' (fst refs) i t \<and> Attached refs t \<and>
                          tri_mat t = currentMaterialIndex this"
       "(\<exists>t. r = Inr t) \<longleftrightarrow> StepInRange this refs i"
  proof (atomize (full), cases r1)
    case (Inl msg)
    then have "r = Inl msg" "c' = c1"
      using assms s1 by (simp_all add: FaceStep_def refs)
    then show "Extends c c' \<and> (r = Inr t \<longrightarrow> FanTriangle c' (fst refs) i t \<and> Attached refs t \<and>
                          tri_mat t = currentMaterialIndex this) \<and>
       ((\<exists>t. r = Inr t) \<longleftrightarrow> StepInRange this refs i)"
      using v(1) v(2) Inl by (auto simp: StepInRange_def refs)
  next
    case (Inr t1)
    obtain r2 c2 where s2: "FaceColors this vs cs i t1 c1 = (r2, c2)"
      by (cases "FaceColors this vs cs i t1 c1")
    note k = FaceColors_result [OF s2]
    have vin: "InRange (vs ! 0) (length (globalVertices this)) \<and>
               InRange (vs ! (i + 1)) (length (globalVertices this)) \<and>
               InRange (vs ! (i + 2)) (length (globalVertices this))"
      using v(2) Inr by blast
    have f1: "FanTriangle c1 vs i t1" "tri_colors t1 = None" "tri_normals t1 = None"
             "tri_uvs t1 = None" "tri_mat t1 = None"
      using v(3) [OF Inr] by simp_all
    show "Extends c c' \<and> (r = Inr t \<longrightarrow> FanTriangle c' (fst refs) i t \<and> Attached refs t \<and>
                          tri_mat t = currentMaterialIndex this) \<and>
       ((\<exists>t. r = Inr t) \<longleftrightarrow> StepInRange this refs i)"
    proof (cases r2)
      case (Inl msg)
      then have "r = Inl msg" "c' = c2"
        using assms s1 s2 Inr by (simp_all add: FaceStep_def refs)
      then show ?thesis
        using v(1) k(1) k(3) Inl vin
        by (auto simp: StepInRange_def refs intro: Extends_trans)
    next
      case (Inr t2)
      note Inr2 = this
      obtain r3 c3 where s3: "FaceNormals this vs ns i t2 c2 = (r3, c3)"
        by (cases "FaceNormals this vs ns i t2 c2")
      note n = FaceNormals_result [OF s3]
      have cin: "length cs = length vs \<longrightarrow>
              InRange (cs ! 0) (length (globalVertexColors this)) \<and>
              InRange (cs ! (i + 1)) (length (globalVertexColors this)) \<and>
              InRange (cs ! (i + 2)) (length (globalVertexColors this))"
        using k(3) Inr2 by blast
      note f2 = k(2) [OF Inr2]
      show ?thesis
      proof (cases r3)
        case (Inl msg)
        then have "r = Inl msg" "c' = c3"
          using assms s1 s2 s3 \<open>r1 = Inr t1\<close> Inr2 by (simp_all add: FaceStep_def refs)
        then show ?thesis
          using v(1) k(1) n(1) n(3) Inl
          by (auto simp: StepInRange_def refs intro: Extends_trans)
      next
        case (Inr t3)
        note Inr3 = this
        obtain r4 c4 where s4: "FaceUVs this vs us i t3 c3 = (r4, c4)"
          by (cases "FaceUVs this vs us i t3 c3")
        note u = FaceUVs_result [OF s4]
        have nin: "length ns = length vs \<longrightarrow>
              InRange (ns ! 0) (length (globalNormals this)) \<and>
              InRange (ns ! (i + 1)) (length (globalNormals this)) \<and>
              InRange (ns ! (i + 2)) (length (globalNormals this))"
          using n(3) Inr3 by blast
        note f3 = n(2) [OF Inr3]
        have ext: "Extends c c4" "MapExt c1 c4"
          using v(1) k(1) n(1) u(1) by (blast intro: Extends_trans Extends_MapExt)+
        show ?thesis
        proof (cases r4)
          case (Inl msg)
          then have "r = Inl msg" "c' = c4"
            using assms s1 s2 s3 s4 \<open>r1 = Inr t1\<close> Inr2 Inr3 by (simp_all add: FaceStep_def refs)
          then show ?thesis
            using ext(1) u(3) Inl by (auto simp: StepInRange_def refs)
        next
          case (Inr t4)
          note f4 = u(2) [OF Inr]
          have r: "r = Inr (if currentMaterialIndex this \<noteq> None
                then t4\<lparr>tri_mat := currentMaterialIndex this\<rparr> else t4)" and c': "c' = c4"
            using assms s1 s2 s3 s4 \<open>r1 = Inr t1\<close> Inr2 Inr3 Inr by (simp_all add: FaceStep_def refs)
          have uin: "length us = length vs \<longrightarrow>
              InRange (us ! 0) (length (globalUvs this)) \<and>
              InRange (us ! (i + 1)) (length (globalUvs this)) \<and>
              InRange (us ! (i + 2)) (length (globalUvs this))"
            using u(3) Inr by blast
          have ok: "StepInRange this refs i"
            using vin cin nin uin by (simp add: StepInRange_def refs)
          have fan: "FanTriangle c4 vs i t4"
            using FanTriangle_mono [OF f1(1) ext(2)] f2 f3 f4 by (simp add: FanTriangle_def)
          have att: "Attached refs t4"
            using f1 f2 f3 f4 by (auto simp: Attached_def refs split: if_splits)
          have mat: "tri_mat t4 = None" using f1 f2 f3 f4 by simp
          show ?thesis
            using ext(1) ok fan att mat
            by (auto simp: r c' refs FanTriangle_def Attached_def)
        qed
      qed
    qed
  qed
qed

subsection \<open>The face loop\<close>

declare FaceLoop.simps [simp del]

lemma AddTriangle_facts:
  "MapExt c (AddTriangle t c)"
  "mesh_triangles (mesh (AddTriangle t c)) = mesh_triangles (mesh c) @ [t]"
  "mesh_lines (mesh (AddTriangle t c)) = mesh_lines (mesh c)"
  by (simp_all add: AddTriangle_def Mesh_AddTriangle_def MapExt_def)

lemma FaceLoop_result:
  "FaceLoop this refs i c = (err, c') \<Longrightarrow> \<exists>new. FaceLoopPost this refs i c err c' new"
proof (induction this refs i c arbitrary: err c' rule: FaceLoop.induct)
  case (1 this refs i c)
  show ?case
  proof (cases "int i < int (length (fst refs)) - 2")
    case False
    then have "err = None" "c' = c" using "1.prems" by (simp_all add: FaceLoop.simps [of this refs i c])
    then have "FaceLoopPost this refs i c err c' []"
      using False by (simp add: FaceLoopPost_def MapExt_refl)
    then show ?thesis ..
  next
    case True
    obtain r c1 where s: "FaceStep this refs i c = (r, c1)" by (cases "FaceStep this refs i c")
    note st = FaceStep_result [OF s]
    show ?thesis
    proof (cases r)
      case (Inl msg)
      then have e: "err = Some msg" "c' = c1"
        using "1.prems" True s by (simp_all add: FaceLoop.simps [of this refs i c])
      have "\<not> StepInRange this refs i" using st(3) Inl by auto
      then have "FaceLoopPost this refs i c err c' []"
        using st(1) True e by (simp add: FaceLoopPost_def Extends_def)
      then show ?thesis ..
    next
      case (Inr t)
      then have rec: "FaceLoop this refs (i + 1) (AddTriangle t c1) = (err, c')"
        using "1.prems" True s by (simp add: FaceLoop.simps [of this refs i c])
      from "1.IH" [OF True s [symmetric] Inr rec]
      obtain new' where p: "FaceLoopPost this refs (i + 1) (AddTriangle t c1) err c' new'" ..
      have m1: "MapExt c1 c'"
        using p AddTriangle_facts(1) [of c1 t] by (auto simp: FaceLoopPost_def intro: MapExt_trans)
      have m: "MapExt c c'" using st(1) m1 by (auto simp: Extends_def intro: MapExt_trans)
      have t0: "FanTriangle c' (fst refs) i t \<and> Attached refs t \<and>
                tri_mat t = currentMaterialIndex this \<and> StepInRange this refs i"
        using st(2) [OF Inr] st(3) Inr FanTriangle_mono [OF _ m1] by auto
      have all: "FanTriangle c' (fst refs) (i + j) ((t # new') ! j) \<and> Attached refs ((t # new') ! j) \<and>
                       tri_mat ((t # new') ! j) = currentMaterialIndex this \<and>
                       StepInRange this refs (i + j)" if "j < length (t # new')" for j
      proof (cases j)
        case 0
        then show ?thesis using t0 by simp
      next
        case (Suc j')
        then have "j' < length new'" using that by simp
        then show ?thesis using p Suc by (simp add: FaceLoopPost_def)
      qed
      have "FaceLoopPost this refs i c err c' (t # new')"
        unfolding FaceLoopPost_def
        using m all p st(1) True
        by (cases "new' = []") (simp_all add: FaceLoopPost_def Extends_def AddTriangle_facts)
      then show ?thesis ..
    qed
  qed
qed

subsection \<open>The face directive\<close>

lemma String_split_not_Nil: "String_split sep s \<noteq> []"
  by (induction s) (auto split: list.splits)

lemma FaceRefs_vertices:
  "fst (FaceRefs this ps acc) = fst acc @ VertexRefs this ps"
proof (induction ps arbitrary: acc)
  case Nil
  then show ?case by (simp add: VertexRefs_def)
next
  case (Cons p ps)
  obtain vs cs ns us where acc: "acc = (vs, cs, ns, us)" by (cases acc)
  show ?case by (simp add: acc Let_def Cons VertexRefs_def)
qed


lemma FaceRefs_globals:
  "length (globalVertices a) = length (globalVertices b) \<Longrightarrow>
   length (globalVertexColors a) = length (globalVertexColors b) \<Longrightarrow>
   length (globalNormals a) = length (globalNormals b) \<Longrightarrow>
   length (globalUvs a) = length (globalUvs b) \<Longrightarrow>
   FaceRefs a ps acc = FaceRefs b ps acc"
proof (induction ps arbitrary: acc)
  case Nil
  then show ?case by simp
next
  case (Cons p ps)
  obtain vs cs ns us where acc: "acc = (vs, cs, ns, us)" by (cases acc)
  show ?case using Cons by (simp add: acc Let_def)
qed

lemma VertexRefs_length: "length (VertexRefs this ps) = length ps"
  by (simp add: VertexRefs_def)

lemma ensure_mesh:
  assumes "WellFormed this"
  defines "this1 \<equiv> (if currentMeshConverter this = None then AddNewMesh [] this else this)"
  shows "\<exists>cur. currentMeshConverter this1 = Some cur \<and> cur < length (converters this1) \<and>
               mesh_triangles (mesh (converters this1 ! cur)) = currentTriangles this"
proof (cases "currentMeshConverter this")
  case None
  then have "meshNameToConverter this = []" "converters this = []"
    using assms(1) by (simp_all add: WellFormed_def)
  then show ?thesis
    using None
    by (simp add: this1_def AddNewMesh_def Let_def currentTriangles_def currentConverter_def
          new_ObjMeshConverter_def new_Mesh_def)
next
  case (Some cur)
  then show ?thesis
    using assms(1) by (simp add: this1_def WellFormed_def currentTriangles_def currentConverter_def)
qed

lemma ensure_mesh_same:
  defines "ens \<equiv> (\<lambda>this. if currentMeshConverter this = None then AddNewMesh [] this else this)"
  shows "globalVertices (ens this) = globalVertices this"
    "globalVertexColors (ens this) = globalVertexColors this"
    "globalNormals (ens this) = globalNormals this"
    "globalUvs (ens this) = globalUvs this"
    "currentMaterialIndex (ens this) = currentMaterialIndex this"
    "error (ens this) = error this"
  by (simp_all add: ens_def AddNewMesh_globals)

lemma StepInRange_same:
  "globalVertices a = globalVertices b \<Longrightarrow> globalVertexColors a = globalVertexColors b \<Longrightarrow>
   globalNormals a = globalNormals b \<Longrightarrow> globalUvs a = globalUvs b \<Longrightarrow>
   StepInRange a refs i = StepInRange b refs i"
  by (simp add: StepInRange_def)

lemma ProcessFaceCommand_post:
  assumes wf: "WellFormed this"
  shows "\<exists>c err c' new.
           mesh_triangles (mesh c) = currentTriangles this \<and>
           FaceLoopPost this (FaceRefs this ps ([], [], [], [])) 0 c err c' new \<and>
           currentConverter (ProcessFaceCommand ps this) = Some c' \<and>
           error (ProcessFaceCommand ps this) = (error this \<or> err \<noteq> None)"
proof -
  define this1 where "this1 = (if currentMeshConverter this = None then AddNewMesh [] this else this)"
  obtain cur where cur: "currentMeshConverter this1 = Some cur" "cur < length (converters this1)"
      "mesh_triangles (mesh (converters this1 ! cur)) = currentTriangles this"
    using ensure_mesh [OF wf] unfolding this1_def by blast
  have same: "globalVertices this1 = globalVertices this"
    "globalVertexColors this1 = globalVertexColors this"
    "globalNormals this1 = globalNormals this"
    "globalUvs this1 = globalUvs this"
    "currentMaterialIndex this1 = currentMaterialIndex this"
    "error this1 = error this"
    unfolding this1_def by (rule ensure_mesh_same)+
  have refs: "FaceRefs this1 ps ([], [], [], []) = FaceRefs this ps ([], [], [], [])"
    by (rule FaceRefs_globals) (simp_all add: same)
  define refs where "refs = FaceRefs this ps ([], [], [], [])"
  obtain err c' where loop: "FaceLoop this1 refs 0 (converters this1 ! cur) = (err, c')"
    by (cases "FaceLoop this1 refs 0 (converters this1 ! cur)")
  from FaceLoop_result [OF loop]
  obtain new where post1: "FaceLoopPost this1 refs 0 (converters this1 ! cur) err c' new" ..
  have post: "FaceLoopPost this refs 0 (converters this1 ! cur) err c' new"
    using post1 StepInRange_same [of this1 this refs] same
    by (simp add: FaceLoopPost_def)
  have res: "ProcessFaceCommand ps this =
      (case err of None \<Rightarrow> this1\<lparr>converters := (converters this1)[cur := c']\<rparr>
       | Some msg \<Rightarrow> SetError msg (this1\<lparr>converters := (converters this1)[cur := c']\<rparr>))"
    unfolding ProcessFaceCommand_def this1_def[symmetric] Let_def
    by (simp add: cur refs refs_def[symmetric] loop)
  have "currentConverter (ProcessFaceCommand ps this) = Some c'"
    using cur by (simp add: res currentConverter_def SetError_def split: option.splits)
  moreover have "error (ProcessFaceCommand ps this) = (error this \<or> err \<noteq> None)"
    by (simp add: res SetError_def same split: option.splits)
  ultimately show ?thesis
    using cur(3) post unfolding refs_def by blast
qed

lemma currentTriangles_of: "currentConverter this = Some c \<Longrightarrow> currentTriangles this = mesh_triangles (mesh c)"
  by (simp add: currentTriangles_def)


subsection \<open>C6: fan triangulation\<close>



subsection \<open>C8: attributes of a face\<close>

text \<open>
  C8: every triangle that a face directive appends carries vertex colors exactly when
  the face has as many color references as vertex references, and likewise normals and
  UVs. So where the numbers differ, no triangle of the face carries that kind, and where
  they agree, every triangle of the face does.
\<close>

theorem C8_attributes_all_or_nothing:
  assumes wf: "WellFormed this"
    and refs: "FaceRefs this parameters ([], [], [], []) = (vertices, colors, normals, uvs)"
  shows "let this' = ProcessFaceCommand parameters this;
             new = drop (length (currentTriangles this)) (currentTriangles this')
         in take (length (currentTriangles this)) (currentTriangles this') = currentTriangles this \<and>
            length vertices = length parameters \<and>
            (\<forall>t \<in> set new.
               (tri_colors t \<noteq> None \<longleftrightarrow> length colors = length vertices) \<and>
               (tri_normals t \<noteq> None \<longleftrightarrow> length normals = length vertices) \<and>
               (tri_uvs t \<noteq> None \<longleftrightarrow> length uvs = length vertices))"
proof -
  from ProcessFaceCommand_post [OF wf, of parameters] refs
  obtain c err c' new where
    old: "mesh_triangles (mesh c) = currentTriangles this"
    and post: "FaceLoopPost this (vertices, colors, normals, uvs) 0 c err c' new"
    and cur: "currentConverter (ProcessFaceCommand parameters this) = Some c'"
    by auto
  have len: "length vertices = length parameters"
    using FaceRefs_vertices [of this parameters "([], [], [], [])"] refs
    by (simp add: VertexRefs_length)
  have tri: "currentTriangles (ProcessFaceCommand parameters this) = currentTriangles this @ new"
    using post old by (simp add: currentTriangles_of [OF cur] FaceLoopPost_def)
  have "Attached (vertices, colors, normals, uvs) t" if "t \<in> set new" for t
    using post that by (auto simp: FaceLoopPost_def in_set_conv_nth)
  then show ?thesis
    by (simp add: Let_def tri len Attached_def)
qed

text \<open>
  C8 on an example: the face \<open>f 1/1/1 2/2 3/3\<close> has three vertex references, three UV
  references and one normal reference; its triangle has UVs and no normals.
\<close>

theorem C8_attributes_all_or_nothing_witness:
  "WellFormed (exampleAfter (squareLines @ [''vn 0 0 1'', ''vt 0 0'', ''vt 1 0'', ''vt 1 1''])) \<and>
   FaceRefs (exampleAfter (squareLines @ [''vn 0 0 1'', ''vt 0 0'', ''vt 1 0'', ''vt 1 1'']))
     [''1/1/1'', ''2/2'', ''3/3''] ([], [], [], []) =
     ([Num 0, Num 1, Num 2], [], [Num 0], [Num 0, Num 1, Num 2]) \<and>
   map (\<lambda>t. (tri_colors t, tri_normals t, tri_uvs t))
     (currentTriangles (ProcessFaceCommand [''1/1/1'', ''2/2'', ''3/3'']
        (exampleAfter (squareLines @ [''vn 0 0 1'', ''vt 0 0'', ''vt 1 0'', ''vt 1 1''])))) =
     [(None, None, Some (0, 1, 2))]"
proof -
  have h1: "WellFormed (exampleAfter (squareLines @ [''vn 0 0 1'', ''vt 0 0'', ''vt 1 0'', ''vt 1 1'']))"
    by code_simp
  have h2: "FaceRefs (exampleAfter (squareLines @ [''vn 0 0 1'', ''vt 0 0'', ''vt 1 0'', ''vt 1 1'']))
     [''1/1/1'', ''2/2'', ''3/3''] ([], [], [], []) =
     ([Num 0, Num 1, Num 2], [], [Num 0], [Num 0, Num 1, Num 2])" by code_simp
  note c = C8_attributes_all_or_nothing [OF h1 h2]
  have ev: ?thesis by code_simp
  from c ev show ?thesis by fast
qed


subsection \<open>Errors and invariants of the parse\<close>






lemma updateCurrentMaterial_fields:
  "converters (updateCurrentMaterial f this) = converters this"
  "meshNameToConverter (updateCurrentMaterial f this) = meshNameToConverter this"
  "currentMeshConverter (updateCurrentMaterial f this) = currentMeshConverter this"
  "currentMaterial (updateCurrentMaterial f this) = currentMaterial this"
  "materialNameToIndex (updateCurrentMaterial f this) = materialNameToIndex this"
  "error (updateCurrentMaterial f this) = error this"
  by (simp_all add: updateCurrentMaterial_def split: option.splits)

lemma ProcessMaterialParameter_unknown:
  "kw \<notin> {''newmtl'', ''usemtl'', ''mtllib'', ''map_kd'', ''map_ks'', ''map_bump'', ''bump'',
          ''ka'', ''kd'', ''ks'', ''ns'', ''tr'', ''d''}
     \<Longrightarrow> ProcessMaterialParameter rl kw ps line this = Inr (False, this)"
  by (simp add: ProcessMaterialParameter_def)

lemma ProcessMaterialParameter_other:
  assumes r: "ProcessMaterialParameter rl kw ps line this = Inr (b, this')"
    and kw: "kw \<noteq> ''mtllib''"
  shows "SameMeshes this this' \<and> (MaterialInvariant this \<longrightarrow> MaterialInvariant this')"
proof -
  consider "kw = ''newmtl''" | "kw = ''usemtl''" | "kw = ''map_kd''" | "kw = ''map_ks''"
    | "kw = ''map_bump''" | "kw = ''bump''" | "kw = ''ka''" | "kw = ''kd''" | "kw = ''ks''"
    | "kw = ''ns''" | "kw = ''tr''" | "kw = ''d''"
    | "kw \<notin> {''newmtl'', ''usemtl'', ''mtllib'', ''map_kd'', ''map_ks'', ''map_bump'', ''bump'',
          ''ka'', ''kd'', ''ks'', ''ns'', ''tr'', ''d''}"
    using kw by auto
  then show ?thesis
  proof cases
    case 13
    then show ?thesis using r by (simp add: ProcessMaterialParameter_unknown SameMeshes_def)
  qed (use r in \<open>auto simp: ProcessMaterialParameter_def Let_def split_def SameMeshes_def
         MaterialInvariant_def updateCurrentMaterial_fields split: if_splits option.splits\<close>)
qed

lemma ProcessMaterialParameter_mtllib:
  assumes "ProcessMaterialParameter rl ''mtllib'' ps line this = Inr (b, this')"
  shows "(\<exists>cb. this' = this\<lparr>callbacks := cb\<rparr>) \<or>
         (\<exists>cb lines. rl lines (this\<lparr>callbacks := cb\<rparr>) = Inr this')"
proof -
  define cb where "cb = snd (GetFileBuffer getBufferCallback
             (NameFromLine line (length ''mtllib'') (CHR ''#'')) (callbacks this))"
  have self: "this = this\<lparr>callbacks := callbacks this\<rparr>" by simp
  from assms have "this' = this \<or> this' = this\<lparr>callbacks := cb\<rparr> \<or>
       (\<exists>lines. rl lines (this\<lparr>callbacks := cb\<rparr>) = Inr this')"
    by (auto simp: ProcessMaterialParameter_def Let_def split_def cb_def
           split: if_splits option.splits sum.splits)
  then show ?thesis using self by metis
qed

lemma set_Map_set: "set (Map_set k v m) \<subseteq> insert (k, v) (set m)"
  by (induction m) (auto split: if_splits)

lemma map_of_in_set: "map_of m k = Some v \<Longrightarrow> (k, v) \<in> set m"
  by (rule map_of_SomeD)

lemma AddNewMesh_WellFormed:
  assumes "WellFormed this"
  shows "WellFormed (AddNewMesh n this)"
proof (cases "map_of (meshNameToConverter this) n")
  case None
  have "list_all (\<lambda>(nm, converter). converter < Suc (length (converters this)))
          (Map_set n (length (converters this)) (meshNameToConverter this))"
    using assms set_Map_set [of n "length (converters this)" "meshNameToConverter this"]
    by (fastforce simp: WellFormed_def list_all_iff)
  then show ?thesis
    using None by (simp add: AddNewMesh_def Let_def WellFormed_def)
next
  case (Some i)
  then have "i < length (converters this)"
    using assms map_of_in_set [OF Some] by (auto simp: WellFormed_def list_all_iff)
  then show ?thesis
    using Some assms by (simp add: AddNewMesh_def WellFormed_def)
qed

lemma AddNewMesh_materials:
  "currentMaterial (AddNewMesh n this) = currentMaterial this"
  "materialNameToIndex (AddNewMesh n this) = materialNameToIndex this"
  by (simp_all add: AddNewMesh_def Let_def split: option.splits)

lemma AddNewMesh_Inv: "Inv this \<Longrightarrow> Inv (AddNewMesh n this)"
  by (simp add: Inv_def AddNewMesh_WellFormed MaterialInvariant_def AddNewMesh_materials)

lemma Inv_update:
  "Inv this \<Longrightarrow> Inv (this\<lparr>converters := (converters this)[i := c]\<rparr>)"
  "Inv this \<Longrightarrow> Inv (SetError msg this)"
  by (simp_all add: Inv_def WellFormed_def MaterialInvariant_def SetError_def split: option.splits)

lemma ProcessFaceCommand_Inv:
  assumes "Inv this"
  shows "Inv (ProcessFaceCommand ps this)"
proof -
  define this1 where "this1 = (if currentMeshConverter this = None then AddNewMesh [] this else this)"
  have i1: "Inv this1" using assms by (simp add: this1_def AddNewMesh_Inv)
  show ?thesis
  proof (cases "currentMeshConverter this1")
    case None
    then have "ProcessFaceCommand ps this = this1"
      unfolding ProcessFaceCommand_def Let_def this1_def[symmetric] by simp
    then show ?thesis using i1 by simp
  next
    case (Some cur)
    obtain err c where l: "FaceLoop this1 (FaceRefs this1 ps ([], [], [], [])) 0
                             (converters this1 ! cur) = (err, c)"
      by (cases "FaceLoop this1 (FaceRefs this1 ps ([], [], [], [])) 0 (converters this1 ! cur)")
    have "ProcessFaceCommand ps this =
        (case err of None \<Rightarrow> this1\<lparr>converters := (converters this1)[cur := c]\<rparr>
         | Some msg \<Rightarrow> SetError msg (this1\<lparr>converters := (converters this1)[cur := c]\<rparr>))"
      unfolding ProcessFaceCommand_def Let_def this1_def[symmetric] by (simp add: Some l)
    then show ?thesis using i1 by (cases err) (simp_all add: Inv_update)
  qed
qed

lemma ProcessLineCommand_Inv:
  assumes "Inv this"
  shows "Inv (ProcessLineCommand ps this)"
proof -
  define this1 where "this1 = (if currentMeshConverter this = None then AddNewMesh [] this else this)"
  have i1: "Inv this1" using assms by (simp add: this1_def AddNewMesh_Inv)
  show ?thesis
  proof (cases "currentMeshConverter this1")
    case None
    then have "ProcessLineCommand ps this = this1"
      unfolding ProcessLineCommand_def Let_def this1_def[symmetric] by simp
    then show ?thesis using i1 by simp
  next
    case (Some cur)
    note cur = this
    obtain vertices err c where l: "LineLoop this1 ps [] (converters this1 ! cur) = (vertices, err, c)"
      by (metis prod_cases3)
    define this2 where "this2 = (case err of None \<Rightarrow> this1 | Some msg \<Rightarrow> SetError msg this1)"
    have i2: "Inv this2" using i1 by (cases err) (simp_all add: this2_def Inv_update)
    have "ProcessLineCommand ps this = this2\<lparr>converters := (converters this2)
             [cur := AddLine (if currentMaterialIndex this2 \<noteq> None
                        then (new_Line vertices)\<lparr>line_mat := currentMaterialIndex this2\<rparr>
                        else new_Line vertices) c]\<rparr>"
      unfolding ProcessLineCommand_def Let_def this1_def[symmetric]
      by (simp add: cur l this2_def[symmetric])
    then show ?thesis using i2 by (simp add: Inv_update(1))
  qed
qed

lemma ProcessMeshParameter_Inv:
  assumes "Inv this"
  shows "Inv (snd (ProcessMeshParameter kw ps line this))"
proof -
  have a: "Inv (this\<lparr>globalVertices := gv\<rparr>)" "Inv (this\<lparr>globalNormals := gn\<rparr>)"
    "Inv (this\<lparr>globalUvs := gu\<rparr>)" "Inv (this\<lparr>globalVertices := gv, globalVertexColors := gc\<rparr>)"
    for gv gn gu gc
    using assms by (simp_all add: Inv_def WellFormed_def MaterialInvariant_def split: option.splits)
  show ?thesis
    using assms a ProcessFaceCommand_Inv [OF assms, of ps] ProcessLineCommand_Inv [OF assms, of ps]
          AddNewMesh_Inv [OF assms]
    by (simp add: ProcessMeshParameter_def Let_def)
qed

lemma Inv_callbacks: "Inv (this\<lparr>callbacks := cb\<rparr>) = Inv this"
  by (simp add: Inv_def WellFormed_def MaterialInvariant_def split: option.splits)

lemma ProcessMaterialParameter_Inv:
  assumes rl: "\<And>lines s s'. Inv s \<Longrightarrow> rl lines s = Inr s' \<Longrightarrow> Inv s'"
    and inv: "Inv this"
    and r: "ProcessMaterialParameter rl kw ps line this = Inr (b, this')"
  shows "Inv this'"
proof (cases "kw = ''mtllib''")
  case True
  from ProcessMaterialParameter_mtllib [OF r [unfolded True]]
  show ?thesis using rl inv Inv_callbacks by metis
next
  case False
  from ProcessMaterialParameter_other [OF r False] inv
  show ?thesis by (auto simp: Inv_def SameMeshes_def WellFormed_def split: option.splits)
qed

lemma ProcessLine_body_Inv:
  assumes rl: "\<And>lines s s'. Inv s \<Longrightarrow> rl lines s = Inr s' \<Longrightarrow> Inv s'"
    and inv: "Inv this"
    and r: "ProcessLine_body rl line this = Inr this'"
  shows "Inv this'"
proof -
  define kw ps where "kw = toLowerCase (ParametersFromLine line (CHR ''#'') ! 0)"
    and "ps = tl (ParametersFromLine line (CHR ''#''))"
  obtain b this1 where m: "ProcessMeshParameter kw ps line this = (b, this1)"
    by (cases "ProcessMeshParameter kw ps line this")
  have i1: "Inv this1" using ProcessMeshParameter_Inv [OF inv, of kw ps line] m by simp
  from r have "this' = this \<or> this' = this1 \<or>
       (\<exists>h. ProcessMaterialParameter rl kw ps line this1 = Inr (h, this'))"
    unfolding ProcessLine_body_def Let_def kw_def[symmetric] ps_def[symmetric] m
    by (auto split: if_splits sum.splits bool.splits prod.splits)
  moreover have "Inv this'" if "ProcessMaterialParameter rl kw ps line this1 = Inr (h, this')" for h
    using rl i1 that by (rule ProcessMaterialParameter_Inv)
  ultimately show ?thesis using inv i1 by blast
qed

lemma ReadLines_callback_Inv:
  assumes pl: "\<And>line s s'. Inv s \<Longrightarrow> pl line s = Inr s' \<Longrightarrow> Inv s'"
  shows "Inv this \<Longrightarrow> ReadLines_callback pl lines this = Inr this' \<Longrightarrow> Inv this'"
proof (induction lines arbitrary: this)
  case Nil
  then show ?case by simp
next
  case (Cons l ls)
  show ?case
  proof (cases "WasError this")
    case True
    then show ?thesis using Cons by simp
  next
    case False
    then obtain s1 where s1: "pl l this = Inr s1" "ReadLines_callback pl ls s1 = Inr this'"
      using Cons.prems(2) by (auto split: sum.splits)
    then show ?thesis using Cons.IH [of s1] pl [OF Cons.prems(1) s1(1)] by simp
  qed
qed

lemma ProcessLine_Inv: "Inv this \<Longrightarrow> ProcessLine depth line this = Inr this' \<Longrightarrow> Inv this'"
proof (induction depth arbitrary: this line this')
  case 0
  show ?case
    by (rule ProcessLine_body_Inv [of "\<lambda>lines this1. Inl NestingTooDeep", OF _ "0.prems"(1)])
       (use "0.prems"(2) in simp_all)
next
  case (Suc depth)
  have rl: "Inv s \<Longrightarrow> ReadLines_callback (ProcessLine depth) lines s = Inr s' \<Longrightarrow> Inv s'" for lines s s'
    by (rule ReadLines_callback_Inv [of "ProcessLine depth"]) (use Suc.IH in blast)+
  show ?case
    by (rule ProcessLine_body_Inv [of "ReadLines_callback (ProcessLine depth)", OF rl Suc.prems(1)])
       (use Suc.prems(2) in simp_all)
qed

lemma Inv_ResetContent: "Inv (ResetContent cb)"
  by (simp add: Inv_def WellFormed_def MaterialInvariant_def ResetContent_def)

lemma ImportContent_Inv:
  assumes "ImportContent depth fileContent (ResetContent cb) = Inr this"
  shows "Inv this"
proof -
  from assms obtain textContent where
    r: "ReadLines_callback (ProcessLine depth) (ReadLines textContent) (ResetContent cb) = Inr this"
    by (auto simp: ImportContent_def split: option.splits)
  have pl: "Inv s \<Longrightarrow> ProcessLine depth line s = Inr s' \<Longrightarrow> Inv s'" for line s s'
    by (rule ProcessLine_Inv)
  show ?thesis using pl Inv_ResetContent r by (rule ReadLines_callback_Inv)
qed





subsection \<open>C3: material directives without a current material\<close>




subsection \<open>C2: references out of range\<close>




end
